theory Spec2Isabelle
  imports Complex_Main
begin

section \<open>Numbers, tensors and the runtime state\<close>

text \<open>
  The module \<^verbatim>\<open>facemesh/src/index.ts\<close> orchestrates a tensor runtime (tfjs-core), a
  detection pipeline (\<^verbatim>\<open>./pipeline\<close>) and a static table (\<^verbatim>\<open>./keypoints\<close>).

  JavaScript numbers are modelled as reals: rounding, infinities and NaN are not followed.
  A tensor is a handle (\<open>tid\<close>) with a shape and its values in row-major order; the
  element type (int32, float32) is not followed. The runtime state records which handles
  have been released, the next free handle, and the tracked regions of the pipeline.
\<close>

record tensor =
  tid :: nat
  shape :: "nat list"
  vals :: "real list"

type_synonym roi = "(real \<times> real) \<times> (real \<times> real)"

record world =
  disposed :: "nat set"
  nextId :: nat
  regionsOfInterest :: "roi list"

text \<open>
  How a call can end without a value.
  \<^item> \<open>Disposed\<close>: the runtime refuses to read a released tensor.
  \<^item> \<open>ShapeError\<close>: an assertion of the runtime on shapes fails (slice out of range,
    operands that cannot be broadcast, concat of unequal ranks).
  \<^item> \<open>PredictFailed\<close>: the promise of \<^verbatim>\<open>pipeline.predict\<close> rejects.
  \<^item> \<open>IllTyped\<close>: a value does not have the TypeScript type the code reads it at
    (\<^verbatim>\<open>as number\<close>, \<^verbatim>\<open>as [number, number]\<close>, a missing coordinate, an undefined width).
    JavaScript goes on with \<^verbatim>\<open>undefined\<close> or NaN there; the model stops the run instead,
    since neither is a real number.
\<close>

datatype error = Disposed | ShapeError | PredictFailed | IllTyped

type_synonym 'a tf = "world \<Rightarrow> (error + 'a) \<times> world"

definition ret :: "'a \<Rightarrow> 'a tf" where
  "ret x w = (Inr x, w)"

definition throw :: "error \<Rightarrow> 'a tf" where
  "throw e w = (Inl e, w)"

definition andThen :: "'a tf \<Rightarrow> ('a \<Rightarrow> 'b tf) \<Rightarrow> 'b tf" where
  "andThen m f w = (case m w of (Inl e, w') \<Rightarrow> (Inl e, w') | (Inr x, w') \<Rightarrow> f x w')"

subsection \<open>The tensor runtime (tfjs-core), as far as the module uses it\<close>

text \<open>Every operation of the runtime returns a new tensor object with a fresh handle.\<close>

definition makeTensor :: "nat list \<Rightarrow> real list \<Rightarrow> tensor tf" where
  "makeTensor s v w =
     (Inr \<lparr>tid = nextId w, shape = s, vals = v\<rparr>, w\<lparr>nextId := Suc (nextId w)\<rparr>)"

definition isDisposed :: "world \<Rightarrow> tensor \<Rightarrow> bool" where
  "isDisposed w t = (tid t \<in> disposed w)"

definition throwIfDisposed :: "tensor \<Rightarrow> unit tf" where
  "throwIfDisposed t w = (if isDisposed w t then (Inl Disposed, w) else (Inr (), w))"

text \<open>\<^verbatim>\<open>t.dispose()\<close>: releases the tensor; a second call is a no-op.\<close>

definition dispose :: "tensor \<Rightarrow> world \<Rightarrow> world" where
  "dispose t w = w\<lparr>disposed := insert (tid t) (disposed w)\<rparr>"

text \<open>\<^verbatim>\<open>tf.tensor1d(values)\<close> and the conversion of a plain number to a scalar tensor.\<close>

definition tensor1d :: "real list \<Rightarrow> tensor tf" where
  "tensor1d v = makeTensor [length v] v"

definition scalar :: "real \<Rightarrow> tensor tf" where
  "scalar x = makeTensor [] [x]"

text \<open>
  \<^verbatim>\<open>t.slice(begin, size)\<close> with two numbers: a slice along the first axis, the other axes
  whole. The runtime refuses a scalar and a slice that leaves the tensor.
\<close>

definition block :: "nat list \<Rightarrow> real list \<Rightarrow> nat \<Rightarrow> real list" where
  "block s v i = take (prod_list s) (drop (i * prod_list s) v)"

definition slice :: "tensor \<Rightarrow> nat \<Rightarrow> nat \<Rightarrow> tensor tf" where
  "slice t begin size' =
     andThen (throwIfDisposed t) (\<lambda>_.
       case shape t of
         [] \<Rightarrow> throw ShapeError
       | d # ds \<Rightarrow>
           if begin + size' \<le> d
           then makeTensor (size' # ds)
                  (take (size' * prod_list ds) (drop (begin * prod_list ds) (vals t)))
           else throw ShapeError)"

text \<open>
  Broadcasting, on the shapes read from the last axis backwards: two axes are compatible
  when they are equal or one of them is 1; a missing axis counts as 1.
\<close>

fun broadcastRev :: "nat list \<Rightarrow> nat list \<Rightarrow> nat list option" where
  "broadcastRev [] bs = Some bs"
| "broadcastRev (a # as) [] = Some (a # as)"
| "broadcastRev (a # as) (b # bs) =
     (if a = 1 then map_option ((#) b) (broadcastRev as bs)
      else if b = 1 then map_option ((#) a) (broadcastRev as bs)
      else if a \<noteq> b then None
      else map_option ((#) a) (broadcastRev as bs))"

definition assertAndGetBroadcastShape :: "nat list \<Rightarrow> nat list \<Rightarrow> nat list option" where
  "assertAndGetBroadcastShape a b = map_option rev (broadcastRev (rev a) (rev b))"

definition padShape :: "nat \<Rightarrow> nat list \<Rightarrow> nat list" where
  "padShape r s = replicate (r - length s) 1 @ s"

text \<open>
  The values of an elementwise operation on two operands whose shapes have been padded to
  the same rank: along an axis of size 1 the single block is used again.
\<close>

fun elementwise ::
  "(real \<Rightarrow> real \<Rightarrow> real) \<Rightarrow> nat list \<Rightarrow> real list \<Rightarrow> nat list \<Rightarrow> real list \<Rightarrow> real list" where
  "elementwise f [] (x # xs) [] (y # ys) = [f x y]"
| "elementwise f (a # as) xs (b # bs) ys =
     concat (map (\<lambda>i. elementwise f as (block as xs (if a = 1 then 0 else i))
                                      bs (block bs ys (if b = 1 then 0 else i)))
                 [0 ..< (if a = 1 then b else a)])"
| "elementwise f _ _ _ _ = []"

definition binaryOp :: "(real \<Rightarrow> real \<Rightarrow> real) \<Rightarrow> tensor \<Rightarrow> tensor \<Rightarrow> tensor tf" where
  "binaryOp f a b =
     andThen (throwIfDisposed a) (\<lambda>_.
     andThen (throwIfDisposed b) (\<lambda>_.
       case assertAndGetBroadcastShape (shape a) (shape b) of
         None \<Rightarrow> throw ShapeError
       | Some s \<Rightarrow>
           makeTensor s
             (elementwise f (padShape (length s) (shape a)) (vals a)
                            (padShape (length s) (shape b)) (vals b))))"

definition sub :: "tensor \<Rightarrow> tensor \<Rightarrow> tensor tf" where
  "sub = binaryOp (\<lambda>x y. x - y)"

definition mul :: "tensor \<Rightarrow> tensor \<Rightarrow> tensor tf" where
  "mul = binaryOp (\<lambda>x y. x * y)"

text \<open>
  \<^verbatim>\<open>tf.concat(tensors)\<close> along the first axis (the default): the tensors have one rank,
  at least 1, and agree on every other axis.
\<close>

definition concat0 :: "tensor list \<Rightarrow> tensor tf" where
  "concat0 ts w =
     (if list_ex (isDisposed w) ts then (Inl Disposed, w)
      else case ts of
        [] \<Rightarrow> (Inl ShapeError, w)
      | t # _ \<Rightarrow>
          (case shape t of
            [] \<Rightarrow> (Inl ShapeError, w)
          | _ # ds \<Rightarrow>
              if list_all (\<lambda>u. shape u \<noteq> [] \<and> tl (shape u) = ds) ts
              then makeTensor (sum_list (map (\<lambda>u. hd (shape u)) ts) # ds)
                     (concat (map vals ts)) w
              else (Inl ShapeError, w)))"

text \<open>\<^verbatim>\<open>t.toFloat()\<close> and \<^verbatim>\<open>t.expandDims(0)\<close>.\<close>

definition toFloat :: "tensor \<Rightarrow> tensor tf" where
  "toFloat t = andThen (throwIfDisposed t) (\<lambda>_. makeTensor (shape t) (vals t))"

definition expandDims0 :: "tensor \<Rightarrow> tensor tf" where
  "expandDims0 t = andThen (throwIfDisposed t) (\<lambda>_. makeTensor (1 # shape t) (vals t))"

text \<open>
  \<^verbatim>\<open>t.array()\<close>: the values as nested JavaScript arrays, one level for each axis; a
  scalar gives a number. The read is refused on a released tensor.
\<close>

datatype jsarr = JNum real | JArr "jsarr list"

fun nested :: "nat list \<Rightarrow> real list \<Rightarrow> jsarr" where
  "nested [] v = JNum (case v of [] \<Rightarrow> 0 | x # _ \<Rightarrow> x)"
| "nested (n # s) v = JArr (map (\<lambda>i. nested s (block s v i)) [0 ..< n])"

definition array :: "world \<Rightarrow> tensor \<Rightarrow> error + jsarr" where
  "array w t = (if isDisposed w t then Inl Disposed else Inr (nested (shape t) (vals t)))"

text \<open>
  The casts of the module, as checked reads: a nested array is read at a TypeScript type
  only when it has that type.
\<close>

fun asNumber :: "jsarr \<Rightarrow> real option" where
  "asNumber (JNum x) = Some x"
| "asNumber (JArr _) = None"

fun asNumbers :: "jsarr \<Rightarrow> real list option" where
  "asNumbers (JNum _) = None"
| "asNumbers (JArr xs) =
     (if list_all (\<lambda>x. asNumber x \<noteq> None) xs then Some (map (\<lambda>x. the (asNumber x)) xs)
      else None)"

fun asRows :: "jsarr \<Rightarrow> real list list option" where
  "asRows (JNum _) = None"
| "asRows (JArr rs) =
     (if list_all (\<lambda>r. asNumbers r \<noteq> None) rs then Some (map (\<lambda>r. the (asNumbers r)) rs)
      else None)"

definition asPair :: "jsarr \<Rightarrow> (real \<times> real) option" where
  "asPair a = (case asNumbers a of Some [x, y] \<Rightarrow> Some (x, y) | _ \<Rightarrow> None)"

section \<open>The module\<close>

subsection \<open>Data\<close>

text \<open>
  \<^verbatim>\<open>AnnotatedPrediction\<close> (lines 28-38). Each spatial field is either plain arrays or a
  tensor. \<open>flipFaceHorizontal\<close> is private to the module and \<open>estimateFaces\<close> builds a
  result either from tensors only or from arrays only, so the union is taken once for
  the whole result: \<open>Tensors\<close> or \<open>Arrays\<close>. The optional field \<open>annotations\<close> is an
  object from region names to lists of points, kept as a list of properties in
  insertion order; a point read at an index outside the mesh is \<^verbatim>\<open>undefined\<close> (\<open>None\<close>).
\<close>

record 'p boundingBox =
  topLeft :: 'p
  bottomRight :: 'p

type_synonym annotations = "(string \<times> real list option list) list"

record ('c, 'p, 'm) face =
  faceInViewConfidence :: 'c
  boundingBox :: "'p boundingBox"
  mesh :: 'm
  scaledMesh :: 'm
  annotations :: "annotations option"

datatype AnnotatedPrediction =
    Tensors "(tensor, tensor, tensor) face"
  | Arrays "(real, real \<times> real, real list list) face"

text \<open>
  \<^verbatim>\<open>Prediction\<close> is declared in \<^verbatim>\<open>./pipeline\<close>; its fields are the ones line 164 reads.
\<close>

record box =
  startPoint :: tensor
  endPoint :: tensor

record Prediction =
  coords :: tensor
  scaledCoords :: tensor
  box :: box
  flag :: tensor

text \<open>
  The input of \<open>estimateFaces\<close>: a tensor, or a pixel source (image data, an image, a
  video or a canvas element) with its height, its width and its RGBA pixels.
\<close>

record pixelSource =
  height :: nat
  width :: nat
  pixels :: "(nat \<times> nat \<times> nat \<times> nat) list"

datatype input = TensorInput tensor | PixelInput pixelSource

text \<open>\<^verbatim>\<open>tf.browser.fromPixels\<close>: a tensor of shape [height, width, 3], the alpha channel dropped.\<close>

definition fromPixels :: "pixelSource \<Rightarrow> tensor tf" where
  "fromPixels p =
     makeTensor [height p, width p, 3]
       (concat (map (\<lambda>(r, g, b, a). [real r, real g, real b]) (pixels p)))"

text \<open>Reading an array at an index: \<^verbatim>\<open>undefined\<close> outside of it.\<close>

definition elementAt :: "'a list \<Rightarrow> int \<Rightarrow> 'a option" where
  "elementAt xs i = (if 0 \<le> i \<and> nat i < length xs then Some (xs ! nat i) else None)"

subsection \<open>getInputTensorDimensions (lines 40-45)\<close>

definition getInputTensorDimensions :: "input \<Rightarrow> nat option \<times> nat option" where
  "getInputTensorDimensions inp =
     (case inp of
        TensorInput t \<Rightarrow> (elementAt (shape t) 0, elementAt (shape t) 1)
      | PixelInput p \<Rightarrow> (Some (height p), Some (width p)))"

subsection \<open>flipFaceHorizontal (lines 47-90)\<close>

text \<open>
  The tensor branch (lines 49-70). A corner is rebuilt from its first slice, subtracted
  from \<open>imageWidth - 1\<close>, and its second slice (lines 52-57 and 58-63); a mesh is
  subtracted from the vector \<open>[imageWidth - 1, 0]\<close> and multiplied by \<open>[1, -1]\<close>
  (lines 65-66 and 67-68). The operations run in the order JavaScript evaluates them.
\<close>

definition flipCornerTensor :: "real \<Rightarrow> tensor \<Rightarrow> tensor tf" where
  "flipCornerTensor imageWidth corner =
     andThen (slice corner 0 1) (\<lambda>x.
     andThen (scalar (imageWidth - 1)) (\<lambda>c.
     andThen (sub c x) (\<lambda>x'.
     andThen (slice corner 1 1) (\<lambda>y.
       concat0 [x', y]))))"

definition flipMeshTensor :: "real \<Rightarrow> tensor \<Rightarrow> tensor tf" where
  "flipMeshTensor imageWidth m =
     andThen (tensor1d [imageWidth - 1, 0]) (\<lambda>a.
     andThen (sub a m) (\<lambda>d.
     andThen (tensor1d [1, -1]) (\<lambda>b.
       mul d b)))"

text \<open>
  The array branch (lines 72-89) reads each point of a mesh at the type
  \<^verbatim>\<open>[number, number]\<close>: its first two coordinates. The new point has two coordinates.
\<close>

fun flipCoord :: "real \<Rightarrow> real list \<Rightarrow> real list option" where
  "flipCoord imageWidth (x # y # _) = Some [imageWidth - 1 - x, y]"
| "flipCoord imageWidth _ = None"

definition flipMeshArray :: "real \<Rightarrow> real list list \<Rightarrow> real list list option" where
  "flipMeshArray imageWidth m =
     (if list_all (\<lambda>c. flipCoord imageWidth c \<noteq> None) m
      then Some (map (\<lambda>c. the (flipCoord imageWidth c)) m) else None)"

fun flipFaceHorizontal :: "AnnotatedPrediction \<Rightarrow> real \<Rightarrow> AnnotatedPrediction tf" where
  "flipFaceHorizontal (Tensors face) imageWidth =
     andThen (flipCornerTensor imageWidth (topLeft (boundingBox face))) (\<lambda>tl'.
     andThen (flipCornerTensor imageWidth (bottomRight (boundingBox face))) (\<lambda>br'.
     andThen (flipMeshTensor imageWidth (mesh face)) (\<lambda>mesh'.
     andThen (flipMeshTensor imageWidth (scaledMesh face)) (\<lambda>scaledMesh'.
       ret (Tensors (face\<lparr>boundingBox := \<lparr>topLeft = tl', bottomRight = br'\<rparr>,
                          mesh := mesh', scaledMesh := scaledMesh'\<rparr>))))))"
| "flipFaceHorizontal (Arrays face) imageWidth =
     (case (flipMeshArray imageWidth (mesh face), flipMeshArray imageWidth (scaledMesh face)) of
        (Some mesh', Some scaledMesh') \<Rightarrow>
          ret (Arrays (face\<lparr>boundingBox :=
                 \<lparr>topLeft = (imageWidth - 1 - fst (topLeft (boundingBox face)),
                             snd (topLeft (boundingBox face))),
                  bottomRight = (imageWidth - 1 - fst (bottomRight (boundingBox face)),
                                 snd (bottomRight (boundingBox face)))\<rparr>,
                 mesh := mesh', scaledMesh := scaledMesh'\<rparr>))
      | _ \<Rightarrow> throw IllTyped)"

subsection \<open>The class FaceMesh (lines 98-239)\<close>

text \<open>
  \<^verbatim>\<open>load\<close> (lines 102-121) takes seven options, each with a default. Six of them are
  handed to the detector and to the pipeline; the module keeps \<open>detectionConfidence\<close>.
  The pipeline object itself lives in the runtime state (\<open>regionsOfInterest\<close>).
\<close>

record loadOptions =
  meshWidth :: "real option"
  meshHeight :: "real option"
  maxContinuousChecks :: "real option"
  detectionConfidence :: "real option"
  maxFaces :: "real option"
  iouThreshold :: "real option"
  scoreThreshold :: "real option"

definition noOptions :: loadOptions where
  "noOptions = \<lparr>meshWidth = None, meshHeight = None, maxContinuousChecks = None,
     detectionConfidence = None, maxFaces = None, iouThreshold = None,
     scoreThreshold = None\<rparr>"

record FaceMesh =
  detectionConfidence :: real

definition load :: "loadOptions \<Rightarrow> FaceMesh" where
  "load opts =
     \<lparr>detectionConfidence =
        (case loadOptions.detectionConfidence opts of None \<Rightarrow> 9 / 10 | Some d \<Rightarrow> d)\<rparr>"

text \<open>
  Modelled from the spec: \<^verbatim>\<open>Pipeline.clearROIs\<close> is defined in \<^verbatim>\<open>./pipeline\<close>. It
  discards the cached regions of interest, the whole tracking state, so that the next
  call runs a fresh detection.
\<close>

definition clearROIs :: "world \<Rightarrow> world" where
  "clearROIs w = w\<lparr>regionsOfInterest := []\<rparr>"

text \<open>\<^verbatim>\<open>clearPipelineROIs\<close> (lines 136-140).\<close>

definition clearPipelineROIs :: "FaceMesh \<Rightarrow> real \<Rightarrow> world \<Rightarrow> world" where
  "clearPipelineROIs this flag' w =
     (if flag' < FaceMesh.detectionConfidence this then clearROIs w else w)"

text \<open>
  The annotations (lines 222-231). The table \<^verbatim>\<open>MESH_ANNOTATIONS\<close> is defined in
  \<^verbatim>\<open>./keypoints\<close> and is a parameter here: its properties in the order \<^verbatim>\<open>for ... in\<close>
  visits them, each with its list of indices. Assigning a property that exists keeps
  its place; a new property goes last. (The numeric order JavaScript gives to keys
  that are array indices is not followed.)
\<close>

fun setProperty :: "('k \<times> 'v) list \<Rightarrow> 'k \<Rightarrow> 'v \<Rightarrow> ('k \<times> 'v) list" where
  "setProperty [] k v = [(k, v)]"
| "setProperty ((k', v') # obj) k v =
     (if k' = k then (k, v) # obj else (k', v') # setProperty obj k v)"

definition annotate :: "(string \<times> int list) list \<Rightarrow> real list list \<Rightarrow> annotations" where
  "annotate MESH_ANNOTATIONS scaledMesh' =
     foldl (\<lambda>annotations' (key, indices).
              setProperty annotations' key (map (\<lambda>index. elementAt scaledMesh' index) indices))
           [] MESH_ANNOTATIONS"

text \<open>
  \<^verbatim>\<open>Promise.all\<close> over a list of reads: the values in the order of the list, or the
  first failure.
\<close>

fun allOrFirst :: "(error + 'a) list \<Rightarrow> error + 'a list" where
  "allOrFirst [] = Inr []"
| "allOrFirst (Inl e # rs) = Inl e"
| "allOrFirst (Inr x # rs) = (case allOrFirst rs of Inl e \<Rightarrow> Inl e | Inr xs \<Rightarrow> Inr (x # xs))"

text \<open>
  \<^verbatim>\<open>Promise.all\<close> over the callbacks of the predictions. Each callback runs to its end,
  also after another one has failed; the value is the list of results in the order of
  the predictions, or the first failure. The callbacks are run one after the other in
  the order of the predictions (JavaScript may interleave them at their \<^verbatim>\<open>await\<close>).
\<close>

fun promiseAll :: "'a tf list \<Rightarrow> 'a list tf" where
  "promiseAll [] w = (Inr [], w)"
| "promiseAll (m # ms) w =
     (case m w of (r, w1) \<Rightarrow>
       (case promiseAll ms w1 of (rs, w2) \<Rightarrow>
         (case r of
            Inl e \<Rightarrow> (Inl e, w2)
          | Inr x \<Rightarrow> (case rs of Inl e \<Rightarrow> (Inl e, w2) | Inr xs \<Rightarrow> (Inr (x # xs), w2)))))"

text \<open>
  Lines 164-172: the tensors a callback reads. The reads of all callbacks start before
  any callback goes on, so they see the state in which the callbacks were created.
\<close>

definition tensorsToRead :: "bool \<Rightarrow> Prediction \<Rightarrow> tensor list" where
  "tensorsToRead returnTensors prediction =
     (if \<not> returnTensors
      then [flag prediction] @
           [coords prediction, scaledCoords prediction,
            startPoint (box prediction), endPoint (box prediction)]
      else [flag prediction])"

definition readTensors :: "bool \<Rightarrow> world \<Rightarrow> Prediction \<Rightarrow> error + jsarr list" where
  "readTensors returnTensors w prediction =
     allOrFirst (map (array w) (tensorsToRead returnTensors prediction))"

text \<open>Lines 173-233: a callback after its reads.\<close>

definition disposeFlag :: "FaceMesh \<Rightarrow> Prediction \<Rightarrow> real \<Rightarrow> unit tf" where
  "disposeFlag this prediction flagValue w =
     (Inr (), clearPipelineROIs this flagValue (dispose (flag prediction) w))"

definition disposeCoords :: "Prediction \<Rightarrow> unit tf" where
  "disposeCoords prediction w =
     (Inr (), dispose (coords prediction) (dispose (scaledCoords prediction) w))"

definition flipIf :: "bool \<Rightarrow> nat option \<Rightarrow> AnnotatedPrediction \<Rightarrow> AnnotatedPrediction tf" where
  "flipIf flipHorizontal width' annotatedPrediction =
     (if flipHorizontal
      then (case width' of
              None \<Rightarrow> throw IllTyped
            | Some imageWidth \<Rightarrow> flipFaceHorizontal annotatedPrediction (real imageWidth))
      else ret annotatedPrediction)"

definition assemble ::
  "(string \<times> int list) list \<Rightarrow> FaceMesh \<Rightarrow> nat option \<Rightarrow> bool \<Rightarrow> bool \<Rightarrow>
   Prediction \<Rightarrow> jsarr list \<Rightarrow> AnnotatedPrediction tf" where
  "assemble MESH_ANNOTATIONS this width' returnTensors flipHorizontal prediction tensorValues =
     (case tensorValues of
        [] \<Rightarrow> throw IllTyped
      | v # rest \<Rightarrow>
         (case asNumber v of
            None \<Rightarrow> throw IllTyped
          | Some flagValue \<Rightarrow>
              andThen (disposeFlag this prediction flagValue) (\<lambda>_.
                if returnTensors then
                  flipIf flipHorizontal width'
                    (Tensors \<lparr>faceInViewConfidence = flag prediction,
                       boundingBox = \<lparr>topLeft = startPoint (box prediction),
                                      bottomRight = endPoint (box prediction)\<rparr>,
                       mesh = coords prediction,
                       scaledMesh = scaledCoords prediction,
                       annotations = None\<rparr>)
                else
                  (case rest of
                     [a, b, c, d] \<Rightarrow>
                       (case asRows a of None \<Rightarrow> throw IllTyped | Some coordsArr \<Rightarrow>
                       (case asRows b of None \<Rightarrow> throw IllTyped | Some coordsArrScaled \<Rightarrow>
                       (case asPair c of None \<Rightarrow> throw IllTyped | Some topLeft' \<Rightarrow>
                       (case asPair d of None \<Rightarrow> throw IllTyped | Some bottomRight' \<Rightarrow>
                          andThen (disposeCoords prediction) (\<lambda>_.
                          andThen (flipIf flipHorizontal width'
                            (Arrays \<lparr>faceInViewConfidence = flagValue,
                               boundingBox = \<lparr>topLeft = topLeft',
                                              bottomRight = bottomRight'\<rparr>,
                               mesh = coordsArr,
                               scaledMesh = coordsArrScaled,
                               annotations = None\<rparr>)) (\<lambda>annotatedPrediction.
                            case annotatedPrediction of
                              Arrays face \<Rightarrow>
                                ret (Arrays (face\<lparr>annotations :=
                                  Some (annotate MESH_ANNOTATIONS (scaledMesh face))\<rparr>))
                            | Tensors _ \<Rightarrow> throw IllTyped))))))
                   | _ \<Rightarrow> throw IllTyped))))"

text \<open>
  \<^verbatim>\<open>estimateFaces\<close> (lines 142-238). \<^verbatim>\<open>pipeline.predict\<close> is defined in \<^verbatim>\<open>./pipeline\<close>
  and is a parameter: any function of the image tensor and the state that fails or
  returns predictions, \<open>None\<close> standing for \<^verbatim>\<open>null\<close> and \<^verbatim>\<open>undefined\<close>.
  The result \<open>None\<close> is \<^verbatim>\<open>null\<close>.
\<close>

definition callback ::
  "(string \<times> int list) list \<Rightarrow> FaceMesh \<Rightarrow> nat option \<Rightarrow> bool \<Rightarrow> bool \<Rightarrow>
   world \<Rightarrow> Prediction \<Rightarrow> AnnotatedPrediction tf" where
  "callback MESH_ANNOTATIONS this width' returnTensors flipHorizontal w0 prediction =
     (case readTensors returnTensors w0 prediction of
        Inl e \<Rightarrow> throw e
      | Inr tensorValues \<Rightarrow>
          assemble MESH_ANNOTATIONS this width' returnTensors flipHorizontal
            prediction tensorValues)"

definition releaseInput :: "tensor \<Rightarrow> tensor \<Rightarrow> unit tf" where
  "releaseInput input' inputToFloat w = (Inr (), dispose inputToFloat (dispose input' w))"

text \<open>Lines 147-153: the input as a tensor, its float conversion and the batched image.\<close>

definition prepareImage :: "input \<Rightarrow> (tensor \<times> tensor \<times> tensor) tf" where
  "prepareImage inp =
     andThen (case inp of TensorInput t \<Rightarrow> ret t | PixelInput p \<Rightarrow> fromPixels p) (\<lambda>input'.
     andThen (toFloat input') (\<lambda>inputToFloat.
     andThen (expandDims0 inputToFloat) (\<lambda>image.
       ret (input', inputToFloat, image))))"

definition estimateFaces ::
  "(tensor \<Rightarrow> Prediction list option tf) \<Rightarrow> (string \<times> int list) list \<Rightarrow> FaceMesh \<Rightarrow>
   input \<Rightarrow> bool \<Rightarrow> bool \<Rightarrow> AnnotatedPrediction list option tf" where
  "estimateFaces predict MESH_ANNOTATIONS this inp returnTensors flipHorizontal =
     andThen (prepareImage inp) (\<lambda>(input', inputToFloat, image).
     andThen (predict image) (\<lambda>predictions.
     andThen (releaseInput input' inputToFloat) (\<lambda>_.
       case predictions of
         Some (p # ps) \<Rightarrow>
           andThen (\<lambda>w. promiseAll
                      (map (callback MESH_ANNOTATIONS this
                              (snd (getInputTensorDimensions (TensorInput input')))
                              returnTensors flipHorizontal w) (p # ps)) w)
             (\<lambda>results. ret (Some results))
       | _ \<Rightarrow> ret None)))"

subsection \<open>Well-formed states and the arrays a buffer holds\<close>

text \<open>
  Notions the properties below are stated with. In a well-formed state every released
  handle has been allocated before. A tensor holds a point when it is a vector of its
  two coordinates, and a mesh when it is a matrix with one row of two coordinates for
  each point: these are the tensors whose \<^verbatim>\<open>array()\<close> has the type of the array-typed
  field (\<^verbatim>\<open>[number, number]\<close>, and rows of two numbers). A buffer-typed result holds an
  array-typed one when each of its spatial buffers is live and holds the array of the
  same field.
\<close>

definition wfWorld :: "world \<Rightarrow> bool" where
  "wfWorld w = (\<forall>i \<in> disposed w. i < nextId w)"

definition pointTensor :: "tensor \<Rightarrow> real \<times> real \<Rightarrow> bool" where
  "pointTensor t p = (shape t = [2] \<and> vals t = [fst p, snd p])"

definition meshTensor :: "tensor \<Rightarrow> real list list \<Rightarrow> bool" where
  "meshTensor t rows =
     (shape t = [length rows, 2] \<and> vals t = concat rows \<and> list_all (\<lambda>r. length r = 2) rows)"

definition holds ::
  "world \<Rightarrow> (tensor, tensor, tensor) face \<Rightarrow> (real, real \<times> real, real list list) face \<Rightarrow> bool"
  where
  "holds w f a =
     (pointTensor (topLeft (boundingBox f)) (topLeft (boundingBox a)) \<and>
      pointTensor (bottomRight (boundingBox f)) (bottomRight (boundingBox a)) \<and>
      meshTensor (mesh f) (mesh a) \<and>
      meshTensor (scaledMesh f) (scaledMesh a) \<and>
      \<not> isDisposed w (topLeft (boundingBox f)) \<and>
      \<not> isDisposed w (bottomRight (boundingBox f)) \<and>
      \<not> isDisposed w (mesh f) \<and>
      \<not> isDisposed w (scaledMesh f) \<and>
      shape (faceInViewConfidence f) = [] \<and>
      vals (faceInViewConfidence f) = [faceInViewConfidence a] \<and>
      annotations f = annotations a)"




text \<open>
  The effect of an operation of the runtime on the state: it allocates handles and does
  nothing else (\<open>quiet\<close>), and the tensor it returns is one of the new handles
  (\<open>allocates\<close>).
\<close>

definition quiet :: "'a tf \<Rightarrow> bool" where
  "quiet m =
     (\<forall>v. disposed (snd (m v)) = disposed v \<and>
          regionsOfInterest (snd (m v)) = regionsOfInterest v \<and>
          nextId v \<le> nextId (snd (m v)))"

definition allocates :: "tensor tf \<Rightarrow> bool" where
  "allocates m =
     (quiet m \<and>
      (\<forall>v. case fst (m v) of
             Inl e \<Rightarrow> True
           | Inr t \<Rightarrow> nextId v \<le> tid t \<and> tid t < nextId (snd (m v))))"

text \<open>An operation \<open>grows\<close> when it releases tensors at most: nothing released comes back.\<close>

definition grows :: "'a tf \<Rightarrow> bool" where
  "grows m = (\<forall>v. disposed v \<subseteq> disposed (snd (m v)))"

text \<open>
  What the properties of the raw-buffer results ask of the predictions the pipeline hands
  over, in the state after the input has been released: every confidence buffer has been
  allocated, every spatial buffer is live, and no spatial buffer is a confidence buffer
  of the batch.
\<close>

definition handedOver :: "world \<Rightarrow> Prediction list \<Rightarrow> bool" where
  "handedOver w ps =
     list_all (\<lambda>p. tid (flag p) < nextId w \<and>
        list_all (\<lambda>t. \<not> isDisposed w t \<and> list_all (\<lambda>q. tid t \<noteq> tid (flag q)) ps)
          [coords p, scaledCoords p, startPoint (box p), endPoint (box p)]) ps"

text \<open>
  A prediction is well shaped in a state when its confidence is a live scalar, its two
  meshes are live matrices of two columns and its two box points are live vectors of two
  values.
\<close>

definition holdsScalar :: "tensor \<Rightarrow> bool" where
  "holdsScalar t = (shape t = [] \<and> length (vals t) = 1)"

definition holdsPoint :: "tensor \<Rightarrow> bool" where
  "holdsPoint t = (shape t = [2] \<and> length (vals t) = 2)"

definition holdsMesh :: "tensor \<Rightarrow> bool" where
  "holdsMesh t = (case shape t of [n, k] \<Rightarrow> k = 2 \<and> length (vals t) = n * 2 | _ \<Rightarrow> False)"

definition wellShaped :: "world \<Rightarrow> Prediction \<Rightarrow> bool" where
  "wellShaped w p =
     (holdsScalar (flag p) \<and> \<not> isDisposed w (flag p) \<and>
      holdsMesh (coords p) \<and> \<not> isDisposed w (coords p) \<and>
      holdsMesh (scaledCoords p) \<and> \<not> isDisposed w (scaledCoords p) \<and>
      holdsPoint (startPoint (box p)) \<and> \<not> isDisposed w (startPoint (box p)) \<and>
      holdsPoint (endPoint (box p)) \<and> \<not> isDisposed w (endPoint (box p)))"


subsection \<open>A concrete face\<close>

text \<open>
  One face in both forms, in a state where the handle 0 has been released: the corners
  (5, 5) and (25, 25), two mesh points, two scaled mesh points. With the image width 640
  the point (100, 50) is mirrored to (539, 50).
\<close>

definition exampleWorld :: world where
  "exampleWorld = \<lparr>disposed = {0}, nextId = 40, regionsOfInterest = [((0, 0), (1, 1))]\<rparr>"

definition exampleArrays :: "(real, real \<times> real, real list list) face" where
  "exampleArrays =
     \<lparr>faceInViewConfidence = 95 / 100,
      boundingBox = \<lparr>topLeft = (5, 5), bottomRight = (25, 25)\<rparr>,
      mesh = [[10, 10], [20, 20]],
      scaledMesh = [[100, 50], [20, 20]],
      annotations = None\<rparr>"

definition exampleTensors :: "(tensor, tensor, tensor) face" where
  "exampleTensors =
     \<lparr>faceInViewConfidence = \<lparr>tid = 5, shape = [], vals = [95 / 100]\<rparr>,
      boundingBox = \<lparr>topLeft = \<lparr>tid = 3, shape = [2], vals = [5, 5]\<rparr>,
                     bottomRight = \<lparr>tid = 4, shape = [2], vals = [25, 25]\<rparr>\<rparr>,
      mesh = \<lparr>tid = 1, shape = [2, 2], vals = [10, 10, 20, 20]\<rparr>,
      scaledMesh = \<lparr>tid = 2, shape = [2, 2], vals = [100, 50, 20, 20]\<rparr>,
      annotations = None\<rparr>"



text \<open>
  The same face as a prediction of the pipeline and a pipeline that returns it; two more
  predictions, the second with a confidence below the default threshold, and a pipeline
  that returns the three; a pipeline that fails; an image of two pixels; a table of two
  regions.
\<close>

definition examplePrediction :: Prediction where
  "examplePrediction =
     \<lparr>coords = \<lparr>tid = 1, shape = [2, 2], vals = [10, 10, 20, 20]\<rparr>,
      scaledCoords = \<lparr>tid = 2, shape = [2, 2], vals = [100, 50, 20, 20]\<rparr>,
      box = \<lparr>startPoint = \<lparr>tid = 3, shape = [2], vals = [5, 5]\<rparr>,
             endPoint = \<lparr>tid = 4, shape = [2], vals = [25, 25]\<rparr>\<rparr>,
      flag = \<lparr>tid = 5, shape = [], vals = [95 / 100]\<rparr>\<rparr>"

definition examplePredict :: "tensor \<Rightarrow> Prediction list option tf" where
  "examplePredict img = ret (Some [examplePrediction])"

definition secondPrediction :: Prediction where
  "secondPrediction =
     \<lparr>coords = \<lparr>tid = 11, shape = [2, 2], vals = [30, 10, 40, 20]\<rparr>,
      scaledCoords = \<lparr>tid = 12, shape = [2, 2], vals = [300, 50, 400, 20]\<rparr>,
      box = \<lparr>startPoint = \<lparr>tid = 13, shape = [2], vals = [205, 5]\<rparr>,
             endPoint = \<lparr>tid = 14, shape = [2], vals = [225, 25]\<rparr>\<rparr>,
      flag = \<lparr>tid = 15, shape = [], vals = [1 / 2]\<rparr>\<rparr>"

definition thirdPrediction :: Prediction where
  "thirdPrediction =
     \<lparr>coords = \<lparr>tid = 21, shape = [2, 2], vals = [50, 10, 60, 20]\<rparr>,
      scaledCoords = \<lparr>tid = 22, shape = [2, 2], vals = [500, 50, 600, 20]\<rparr>,
      box = \<lparr>startPoint = \<lparr>tid = 23, shape = [2], vals = [405, 5]\<rparr>,
             endPoint = \<lparr>tid = 24, shape = [2], vals = [425, 25]\<rparr>\<rparr>,
      flag = \<lparr>tid = 25, shape = [], vals = [99 / 100]\<rparr>\<rparr>"

definition threeFaces :: "tensor \<Rightarrow> Prediction list option tf" where
  "threeFaces img = ret (Some [examplePrediction, secondPrediction, thirdPrediction])"

definition failingPredict :: "tensor \<Rightarrow> Prediction list option tf" where
  "failingPredict img = throw PredictFailed"

definition exampleInput :: input where
  "exampleInput = PixelInput \<lparr>height = 1, width = 2, pixels = [(255, 0, 0, 255), (0, 255, 0, 255)]\<rparr>"

definition exampleTable :: "(string \<times> int list) list" where
  "exampleTable = [(''lipsUpperOuter'', [1, 0]), (''noseTip'', [1])]"

text \<open>
  An image tensor of 480 by 640 pixels that the caller owns, and the state after the
  pipeline has returned and the image and its float conversion have been released.
\<close>

definition exampleImage :: input where
  "exampleImage = TensorInput \<lparr>tid = 6, shape = [480, 640, 3], vals = replicate 921600 0\<rparr>"

definition afterPredict :: world where
  "afterPredict = \<lparr>disposed = {40, 6, 0}, nextId = 42, regionsOfInterest = [((0, 0), (1, 1))]\<rparr>"

section \<open>Properties\<close>

subsection \<open>Sequencing\<close>

lemma andThen_Inr: "m w = (Inr x, w') \<Longrightarrow> andThen m f w = f x w'"
  by (simp add: andThen_def)

lemma andThen_Inl: "m w = (Inl e, w') \<Longrightarrow> andThen m f w = (Inl e, w')"
  by (simp add: andThen_def)

subsection \<open>The confidence gate\<close>

text \<open>
  Claim C2. For every confidence \<open>c\<close> and every threshold of the instance,
  \<open>clearPipelineROIs\<close> clears the tracked regions of the pipeline when \<open>c\<close> is strictly
  below the threshold and leaves the state as it is otherwise. The threshold is the
  option \<open>detectionConfidence\<close> of \<open>load\<close>, 0.9 when the option is absent; with 0.9, a
  confidence of 0.89 clears, and 0.90 and 0.91 do not.
\<close>

theorem clearPipelineROIs_gate:
  "(c < FaceMesh.detectionConfidence this \<longrightarrow>
      clearPipelineROIs this c w = clearROIs w \<and>
      regionsOfInterest (clearPipelineROIs this c w) = []) \<and>
   (FaceMesh.detectionConfidence this \<le> c \<longrightarrow> clearPipelineROIs this c w = w) \<and>
   FaceMesh.detectionConfidence (load noOptions) = 9 / 10 \<and>
   FaceMesh.detectionConfidence (load (opts\<lparr>loadOptions.detectionConfidence := Some t\<rparr>)) = t \<and>
   regionsOfInterest (clearPipelineROIs (load noOptions) (89 / 100) w) = [] \<and>
   clearPipelineROIs (load noOptions) (90 / 100) w = w \<and>
   clearPipelineROIs (load noOptions) (91 / 100) w = w"
  by (simp add: clearPipelineROIs_def clearROIs_def load_def noOptions_def)

theorem clearPipelineROIs_gate_witness:
  "clearPipelineROIs \<lparr>detectionConfidence = 9 / 10\<rparr> (1 / 2)
     \<lparr>disposed = {}, nextId = 0, regionsOfInterest = [((0, 0), (1, 1))]\<rparr>
   = \<lparr>disposed = {}, nextId = 0, regionsOfInterest = []\<rparr> \<and>
   clearPipelineROIs \<lparr>detectionConfidence = 9 / 10\<rparr> (95 / 100)
     \<lparr>disposed = {}, nextId = 0, regionsOfInterest = [((0, 0), (1, 1))]\<rparr>
   = \<lparr>disposed = {}, nextId = 0, regionsOfInterest = [((0, 0), (1, 1))]\<rparr>"
  using clearPipelineROIs_gate [of "1 / 2" "\<lparr>detectionConfidence = 9 / 10\<rparr>"
      "\<lparr>disposed = {}, nextId = 0, regionsOfInterest = [((0, 0), (1, 1))]\<rparr>"]
    clearPipelineROIs_gate [of "95 / 100" "\<lparr>detectionConfidence = 9 / 10\<rparr>"
      "\<lparr>disposed = {}, nextId = 0, regionsOfInterest = [((0, 0), (1, 1))]\<rparr>"]
  by (simp add: clearROIs_def)

subsection \<open>No predictions\<close>

text \<open>
  Claim C3. Whatever the input and the two flags: when the call reaches the pipeline
  and \<open>predict\<close> yields no prediction (\<^verbatim>\<open>null\<close>, \<^verbatim>\<open>undefined\<close> or an empty list),
  \<open>estimateFaces\<close> returns \<^verbatim>\<open>null\<close> (\<open>None\<close>), not an empty list, after it has released
  the input tensor and its float conversion.
\<close>

theorem estimateFaces_null_on_empty:
  assumes "prepareImage inp w = (Inr (input', inputToFloat, img), w1)"
    and "predict img w1 = (Inr predictions, w2)"
    and "predictions = None \<or> predictions = Some []"
  shows "estimateFaces predict MESH_ANNOTATIONS this inp returnTensors flipHorizontal w
         = (Inr None, dispose inputToFloat (dispose input' w2))"
  using assms
  by (auto simp: estimateFaces_def andThen_def releaseInput_def ret_def)

theorem estimateFaces_null_on_empty_witness:
  "estimateFaces (\<lambda>img. ret (Some [])) [] (load noOptions)
     (PixelInput \<lparr>height = 1, width = 1, pixels = [(1, 2, 3, 255)]\<rparr>) False False
     \<lparr>disposed = {}, nextId = 0, regionsOfInterest = []\<rparr>
   = (Inr None, \<lparr>disposed = {1, 0}, nextId = 3, regionsOfInterest = []\<rparr>)"
proof -
  let ?w = "\<lparr>disposed = {}, nextId = 0, regionsOfInterest = []\<rparr>"
  let ?p = "\<lparr>height = 1, width = 1, pixels = [(1, 2, 3, 255)]\<rparr>"
  let ?input = "\<lparr>tid = 0, shape = [1, 1, 3], vals = [1, 2, 3]\<rparr>"
  let ?float = "\<lparr>tid = 1, shape = [1, 1, 3], vals = [1, 2, 3]\<rparr>"
  let ?img = "\<lparr>tid = 2, shape = [1, 1, 1, 3], vals = [1, 2, 3]\<rparr>"
  let ?w1 = "\<lparr>disposed = {}, nextId = 3, regionsOfInterest = []\<rparr>"
  have 1: "prepareImage (PixelInput ?p) ?w = (Inr (?input, ?float, ?img), ?w1)"
    by (simp add: prepareImage_def andThen_def fromPixels_def toFloat_def expandDims0_def
        makeTensor_def throwIfDisposed_def isDisposed_def ret_def)
  have 2: "(\<lambda>img. ret (Some [])) ?img ?w1 = (Inr (Some ([] :: Prediction list)), ?w1)"
    by (simp add: ret_def)
  show ?thesis
    using estimateFaces_null_on_empty [of "PixelInput ?p" ?w ?input ?float ?img ?w1
        "\<lambda>img. ret (Some [])" "Some []" ?w1, OF 1 2]
    by (simp add: dispose_def)
qed

subsection \<open>The tensor runtime on points and meshes\<close>

text \<open>
  A matrix of \<open>n\<close> rows of two values, combined with a vector of two values, is combined
  row by row; this is all the broadcasting the module needs.
\<close>

lemma block_concat:
  "list_all (\<lambda>r. length r = k) rows \<Longrightarrow> i < length rows \<Longrightarrow> block [k] (concat rows) i = rows ! i"
proof (induction rows arbitrary: i)
  case Nil
  then show ?case by simp
next
  case (Cons r rows)
  show ?case
  proof (cases i)
    case 0
    with Cons.prems show ?thesis by (simp add: block_def)
  next
    case (Suc j)
    with Cons.prems have "block [k] (concat rows) j = rows ! j"
      using Cons.IH [of j] by simp
    with Suc Cons.prems show ?thesis by (simp add: block_def)
  qed
qed

lemma elementwise_pair:
  "elementwise f [2] [a, b] [2] [x, y] = [f a x, f b y]"
  by (simp add: block_def upt_rec numeral_2_eq_2)

lemma two_list: "length r = 2 \<Longrightarrow> r = [r ! 0, r ! 1]"
  by (cases r; cases "tl r") auto

lemma map_index_nth: "map (\<lambda>i. g (xs ! i)) [0 ..< length xs] = map g xs"
  by (rule nth_equalityI) simp_all

lemma elementwise_vec_rows:
  assumes "list_all (\<lambda>r. length r = 2) rows"
  shows "elementwise f [1, 2] [a, b] [length rows, 2] (concat rows)
         = concat (map (\<lambda>r. [f a (r ! 0), f b (r ! 1)]) rows)"
proof -
  have row: "elementwise f [2] (block [2] [a, b] 0) [2]
               (block [2] (concat rows) (if length rows = 1 then 0 else i))
             = [f a (rows ! i ! 0), f b (rows ! i ! 1)]" if "i < length rows" for i
  proof -
    have i: "(if length rows = 1 then 0 else i) = i"
      using that by auto
    have len: "length (rows ! i) = 2"
      using assms that by (simp add: list_all_length)
    have "block [2] (concat rows) i = [rows ! i ! 0, rows ! i ! 1]"
      using block_concat [OF assms that] two_list [OF len] by simp
    moreover have "block [2] [a, b] 0 = [a, b]"
      by (simp add: block_def)
    ultimately show ?thesis
      by (simp only: i elementwise_pair)
  qed
  have "elementwise f [1, 2] [a, b] [length rows, 2] (concat rows)
        = concat (map (\<lambda>i. elementwise f [2] (block [2] [a, b] 0) [2]
                              (block [2] (concat rows) (if length rows = 1 then 0 else i)))
                      [0 ..< length rows])"
    by (subst elementwise.simps(2)) (simp only: simp_thms if_True)
  also have "\<dots> = concat (map (\<lambda>i. [f a (rows ! i ! 0), f b (rows ! i ! 1)]) [0 ..< length rows])"
    by (rule arg_cong [where f = concat], rule map_cong) (use row in auto)
  also have "\<dots> = concat (map (\<lambda>r. [f a (r ! 0), f b (r ! 1)]) rows)"
    using map_index_nth [of "\<lambda>r. [f a (r ! 0), f b (r ! 1)]" rows] by simp
  finally show ?thesis .
qed

lemma elementwise_rows_vec:
  assumes "list_all (\<lambda>r. length r = 2) rows"
  shows "elementwise f [length rows, 2] (concat rows) [1, 2] [a, b]
         = concat (map (\<lambda>r. [f (r ! 0) a, f (r ! 1) b]) rows)"
proof -
  have row: "elementwise f [2] (block [2] (concat rows) (if length rows = 1 then 0 else i))
               [2] (block [2] [a, b] 0)
             = [f (rows ! i ! 0) a, f (rows ! i ! 1) b]" if "i < length rows" for i
  proof -
    have i: "(if length rows = 1 then 0 else i) = i"
      using that by auto
    have len: "length (rows ! i) = 2"
      using assms that by (simp add: list_all_length)
    have "block [2] (concat rows) i = [rows ! i ! 0, rows ! i ! 1]"
      using block_concat [OF assms that] two_list [OF len] by simp
    moreover have "block [2] [a, b] 0 = [a, b]"
      by (simp add: block_def)
    ultimately show ?thesis
      by (simp only: i elementwise_pair)
  qed
  have "elementwise f [length rows, 2] (concat rows) [1, 2] [a, b]
        = concat (map (\<lambda>i. elementwise f [2]
                              (block [2] (concat rows) (if length rows = 1 then 0 else i))
                              [2] (block [2] [a, b] 0))
                      [0 ..< length rows])"
  proof -
    have n: "(if length rows = 1 then 1 else length rows) = length rows"
      by simp
    show ?thesis
      by (subst elementwise.simps(2)) (simp only: simp_thms if_True n)
  qed
  also have "\<dots> = concat (map (\<lambda>i. [f (rows ! i ! 0) a, f (rows ! i ! 1) b]) [0 ..< length rows])"
    by (rule arg_cong [where f = concat], rule map_cong) (use row in auto)
  also have "\<dots> = concat (map (\<lambda>r. [f (r ! 0) a, f (r ! 1) b]) rows)"
    using map_index_nth [of "\<lambda>r. [f (r ! 0) a, f (r ! 1) b]" rows] by simp
  finally show ?thesis .
qed


text \<open>Fresh handles are live in a well-formed state.\<close>

lemma fresh_ge: "wfWorld w \<Longrightarrow> nextId w \<le> i \<Longrightarrow> i \<notin> disposed w"
  by (auto simp: wfWorld_def)

lemma wfWorld_nextId: "wfWorld w \<Longrightarrow> nextId w \<le> n \<Longrightarrow> wfWorld (w\<lparr>nextId := n\<rparr>)"
  by (auto simp: wfWorld_def)

lemma isDisposed_nextId [simp]: "isDisposed (w\<lparr>nextId := n\<rparr>) t = isDisposed w t"
  by (simp add: isDisposed_def)

lemma broadcast_vec_rows: "assertAndGetBroadcastShape [2] [n, 2] = Some [n, 2]"
  by (simp add: assertAndGetBroadcastShape_def)

lemma broadcast_rows_vec: "assertAndGetBroadcastShape [n, 2] [2] = Some [n, 2]"
  by (simp add: assertAndGetBroadcastShape_def)

lemma binaryOp_ok:
  "\<not> isDisposed w a \<Longrightarrow> \<not> isDisposed w b \<Longrightarrow>
   assertAndGetBroadcastShape (shape a) (shape b) = Some s \<Longrightarrow>
   binaryOp f a b w =
     makeTensor s (elementwise f (padShape (length s) (shape a)) (vals a)
                                 (padShape (length s) (shape b)) (vals b)) w"
  by (simp add: binaryOp_def andThen_def throwIfDisposed_def)

lemma sub_vec_rows:
  assumes a: "shape a = [2]" "vals a = [p, q]"
    and m: "shape m = [length rows, 2]" "vals m = concat rows"
    and rows: "list_all (\<lambda>r. length r = 2) rows"
    and live: "\<not> isDisposed w a" "\<not> isDisposed w m"
  shows "sub a m w =
    (Inr \<lparr>tid = nextId w, shape = [length rows, 2],
          vals = concat (map (\<lambda>r. [p - r ! 0, q - r ! 1]) rows)\<rparr>,
     w\<lparr>nextId := Suc (nextId w)\<rparr>)"
proof -
  have bs: "assertAndGetBroadcastShape (shape a) (shape m) = Some [length rows, 2]"
    by (simp add: a m broadcast_vec_rows)
  have pa: "padShape (length [length rows, 2]) (shape a) = [1, 2]"
    by (simp add: padShape_def a)
  have pm: "padShape (length [length rows, 2]) (shape m) = [length rows, 2]"
    by (simp add: padShape_def m)
  have ew: "elementwise (\<lambda>x y. x - y) [1, 2] (vals a) [length rows, 2] (vals m)
            = concat (map (\<lambda>r. [p - r ! 0, q - r ! 1]) rows)"
    using elementwise_vec_rows [OF rows] by (simp only: a m)
  show ?thesis
    unfolding sub_def binaryOp_ok [OF live bs] pa pm ew makeTensor_def ..
qed

lemma mul_rows_vec:
  assumes a: "shape a = [2]" "vals a = [p, q]"
    and m: "shape m = [length rows, 2]" "vals m = concat rows"
    and rows: "list_all (\<lambda>r. length r = 2) rows"
    and live: "\<not> isDisposed w m" "\<not> isDisposed w a"
  shows "mul m a w =
    (Inr \<lparr>tid = nextId w, shape = [length rows, 2],
          vals = concat (map (\<lambda>r. [r ! 0 * p, r ! 1 * q]) rows)\<rparr>,
     w\<lparr>nextId := Suc (nextId w)\<rparr>)"
proof -
  have bs: "assertAndGetBroadcastShape (shape m) (shape a) = Some [length rows, 2]"
    by (simp add: a m broadcast_rows_vec)
  have pa: "padShape (length [length rows, 2]) (shape a) = [1, 2]"
    by (simp add: padShape_def a)
  have pm: "padShape (length [length rows, 2]) (shape m) = [length rows, 2]"
    by (simp add: padShape_def m)
  have ew: "elementwise (\<lambda>x y. x * y) [length rows, 2] (vals m) [1, 2] (vals a)
            = concat (map (\<lambda>r. [r ! 0 * p, r ! 1 * q]) rows)"
    using elementwise_rows_vec [OF rows] by (simp only: a m)
  show ?thesis
    unfolding mul_def binaryOp_ok [OF live bs] pa pm ew makeTensor_def ..
qed

lemma tensor1d_pair:
  "tensor1d [a, b] w =
     (Inr \<lparr>tid = nextId w, shape = [2], vals = [a, b]\<rparr>, w\<lparr>nextId := Suc (nextId w)\<rparr>)"
  by (simp add: tensor1d_def makeTensor_def)


text \<open>
  What \<^verbatim>\<open>array()\<close> and the casts of lines 197-202 read from a tensor that holds a point
  or a mesh.
\<close>

lemma nested_pair: "nested [2] [x, y] = JArr [JNum x, JNum y]"
  by (simp add: block_def upt_rec numeral_2_eq_2)

lemma pointTensor_array:
  assumes "pointTensor t p" "\<not> isDisposed w t"
  shows "\<exists>v. array w t = Inr v \<and> asPair v = Some p"
  using assms by (simp add: pointTensor_def array_def nested_pair asPair_def del: nested.simps)

lemma meshTensor_array:
  assumes "meshTensor t rows" "\<not> isDisposed w t"
  shows "\<exists>v. array w t = Inr v \<and> asRows v = Some rows"
proof -
  from assms(1) have shape: "shape t = [length rows, 2]" and vals: "vals t = concat rows"
    and rows: "list_all (\<lambda>r. length r = 2) rows"
    by (simp_all add: meshTensor_def)
  have row: "nested [2] (block [2] (concat rows) i) = JArr [JNum (rows ! i ! 0), JNum (rows ! i ! 1)]"
    if "i < length rows" for i
  proof -
    from rows that have "length (rows ! i) = 2" by (simp add: list_all_length)
    from two_list [OF this]
    have "nested [2] (rows ! i) = nested [2] [rows ! i ! 0, rows ! i ! 1]"
      by (rule arg_cong)
    with block_concat [OF rows that] show ?thesis
      by (simp only: nested_pair)
  qed
  have "nested (shape t) (vals t)
        = JArr (map (\<lambda>i. nested [2] (block [2] (concat rows) i)) [0 ..< length rows])"
    by (simp only: shape vals nested.simps)
  also have "\<dots> = JArr (map (\<lambda>i. JArr [JNum (rows ! i ! 0), JNum (rows ! i ! 1)]) [0 ..< length rows])"
    by (rule arg_cong [where f = JArr], rule map_cong) (use row in auto)
  also have "\<dots> = JArr (map (\<lambda>r. JArr [JNum (r ! 0), JNum (r ! 1)]) rows)"
    using map_index_nth [of "\<lambda>r. JArr [JNum (r ! 0), JNum (r ! 1)]" rows] by simp
  finally have n: "nested (shape t) (vals t) = JArr (map (\<lambda>r. JArr [JNum (r ! 0), JNum (r ! 1)]) rows)" .
  have "map (\<lambda>r. [r ! 0, r ! 1]) rows = rows"
  proof (rule map_idI)
    fix r assume "r \<in> set rows"
    with rows have "length r = 2" by (simp add: list_all_iff)
    from two_list [OF this] show "[r ! 0, r ! 1] = r" by simp
  qed
  then have "asRows (JArr (map (\<lambda>r. JArr [JNum (r ! 0), JNum (r ! 1)]) rows)) = Some rows"
    by (simp add: list_all_iff comp_def)
  with assms(2) n show ?thesis
    by (simp add: array_def)
qed


subsection \<open>The flip of a buffer\<close>

text \<open>
  The mesh: \<open>([W - 1, 0] - m) * [1, -1]\<close> has the rows \<open>[W - 1 - x, y]\<close>, in a new
  tensor; three more tensors are allocated on the way and none is released.
\<close>

lemma flipMeshTensor_rows:
  assumes shape: "shape m = [length rows, 2]" and vals: "vals m = concat rows"
    and rows: "list_all (\<lambda>r. length r = 2) rows"
    and live: "\<not> isDisposed w m" and wf: "wfWorld w"
  shows "flipMeshTensor W m w =
    (Inr \<lparr>tid = nextId w + 3, shape = [length rows, 2],
          vals = concat (map (\<lambda>r. [W - 1 - r ! 0, r ! 1]) rows)\<rparr>,
     w\<lparr>nextId := nextId w + 4\<rparr>)"
proof -
  define a where "a = \<lparr>tid = nextId w, shape = [2], vals = [W - 1, 0]\<rparr>"
  define w1 where "w1 = w\<lparr>nextId := Suc (nextId w)\<rparr>"
  define rows' where "rows' = map (\<lambda>r. [W - 1 - r ! 0, 0 - r ! 1]) rows"
  define d where "d = \<lparr>tid = nextId w1, shape = [length rows, 2], vals = concat rows'\<rparr>"
  define w2 where "w2 = w1\<lparr>nextId := Suc (nextId w1)\<rparr>"
  define b where "b = \<lparr>tid = nextId w2, shape = [2], vals = [1, - 1 :: real]\<rparr>"
  define w3 where "w3 = w2\<lparr>nextId := Suc (nextId w2)\<rparr>"
  have rows': "list_all (\<lambda>r. length r = 2) rows'" "length rows' = length rows"
    by (simp_all add: rows'_def list_all_iff)
  have s1: "tensor1d [W - 1, 0] w = (Inr a, w1)"
    by (simp add: tensor1d_pair a_def w1_def)
  have "\<not> isDisposed w1 a" "\<not> isDisposed w1 m"
    using live fresh_ge [OF wf, of "nextId w"] by (simp_all add: isDisposed_def a_def w1_def)
  then have s2: "sub a m w1 = (Inr d, w2)"
    using sub_vec_rows [of a "W - 1" 0 m rows w1] shape vals rows
    by (simp add: a_def d_def w2_def rows'_def)
  have s3: "tensor1d [1, - 1] w2 = (Inr b, w3)"
    by (simp add: tensor1d_pair b_def w3_def)
  have "\<not> isDisposed w3 d" "\<not> isDisposed w3 b"
    using fresh_ge [OF wf, of "Suc (nextId w)"] fresh_ge [OF wf, of "Suc (Suc (nextId w))"]
    by (simp_all add: isDisposed_def d_def b_def w3_def w2_def w1_def)
  then have s4: "mul d b w3 =
    (Inr \<lparr>tid = nextId w3, shape = [length rows', 2],
          vals = concat (map (\<lambda>r. [r ! 0 * 1, r ! 1 * - 1]) rows')\<rparr>,
     w3\<lparr>nextId := Suc (nextId w3)\<rparr>)"
    using mul_rows_vec [of b 1 "- 1" d rows' w3] rows'
    by (simp add: b_def d_def)
  have "flipMeshTensor W m w = mul d b w3"
    unfolding flipMeshTensor_def
    by (simp only: andThen_Inr [of "tensor1d [W - 1, 0]" w, OF s1]
        andThen_Inr [of "sub a m" w1, OF s2] andThen_Inr [of "tensor1d [1, - 1]" w2, OF s3])
  also note s4
  finally show ?thesis
    by (simp add: rows'_def w3_def w2_def w1_def comp_def)
qed


text \<open>
  A corner that is a vector \<open>[x, y]\<close> becomes the vector \<open>[W - 1 - x, y]\<close>, and a
  corner that is a 2 by 1 column becomes the column of the same values. A corner
  that is a 1 by 2 matrix \<open>[[x, y]]\<close> has no second slice along its first axis: the
  runtime refuses \<^verbatim>\<open>slice(1, 1)\<close> and the flip fails.
\<close>

lemma flipCornerTensor_point:
  assumes shape: "shape c = [2]" and vals: "vals c = [x, y]"
    and live: "\<not> isDisposed w c" and wf: "wfWorld w"
  shows "flipCornerTensor W c w =
    (Inr \<lparr>tid = nextId w + 4, shape = [2], vals = [W - 1 - x, y]\<rparr>,
     w\<lparr>nextId := nextId w + 5\<rparr>)"
  using live
  by (simp add: fresh_ge [OF wf] flipCornerTensor_def andThen_def slice_def scalar_def sub_def binaryOp_def
      concat0_def throwIfDisposed_def isDisposed_def makeTensor_def shape vals
      assertAndGetBroadcastShape_def padShape_def block_def)



lemma flipCornerTensor_row_matrix:
  assumes shape: "shape c = [1, 2]" and live: "\<not> isDisposed w c" and wf: "wfWorld w"
  shows "fst (flipCornerTensor W c w) = Inl ShapeError"
  using live
  by (simp add: fresh_ge [OF wf] flipCornerTensor_def andThen_def slice_def scalar_def sub_def binaryOp_def
      concat0_def throwIfDisposed_def isDisposed_def makeTensor_def shape 
      assertAndGetBroadcastShape_def padShape_def block_def throw_def)


text \<open>
  A mesh with three coordinates in a row: the array branch keeps the first two, the
  tensor branch cannot broadcast \<open>[W - 1, 0]\<close> over it and fails.
\<close>

lemma flipCoord_third: "flipCoord W [x, y, z] = Some [W - 1 - x, y]"
  by simp

lemma flipMeshTensor_three_columns:
  assumes "shape m = [n, 3]" "\<not> isDisposed w m" "wfWorld w"
  shows "fst (flipMeshTensor W m w) = Inl ShapeError"
  using assms(2)
  by (simp add: flipMeshTensor_def andThen_def tensor1d_def makeTensor_def sub_def binaryOp_def
      throwIfDisposed_def isDisposed_def fresh_ge [OF assms(3)] assms(1)
      assertAndGetBroadcastShape_def throw_def)

subsection \<open>The flip of a face\<close>

lemma flipCoord_Some: "2 \<le> length c \<Longrightarrow> flipCoord W c = Some [W - 1 - c ! 0, c ! 1]"
  by (cases c; cases "tl c") auto

lemma flipCoord_None: "length c < 2 \<Longrightarrow> flipCoord W c = None"
  by (cases c; cases "tl c") auto

lemma flipMeshArray_Some:
  "list_all (\<lambda>c. 2 \<le> length c) m \<Longrightarrow>
   flipMeshArray W m = Some (map (\<lambda>c. [W - 1 - c ! 0, c ! 1]) m)"
  by (auto simp: flipMeshArray_def list_all_iff flipCoord_Some)

lemma flipFaceHorizontal_Arrays:
  assumes "list_all (\<lambda>c. 2 \<le> length c) (mesh a)" "list_all (\<lambda>c. 2 \<le> length c) (scaledMesh a)"
  shows "flipFaceHorizontal (Arrays a) W w =
    (Inr (Arrays (a\<lparr>boundingBox :=
        \<lparr>topLeft = (W - 1 - fst (topLeft (boundingBox a)), snd (topLeft (boundingBox a))),
         bottomRight = (W - 1 - fst (bottomRight (boundingBox a)),
                        snd (bottomRight (boundingBox a)))\<rparr>,
        mesh := map (\<lambda>c. [W - 1 - c ! 0, c ! 1]) (mesh a),
        scaledMesh := map (\<lambda>c. [W - 1 - c ! 0, c ! 1]) (scaledMesh a)\<rparr>)), w)"
  by (simp add: flipMeshArray_Some assms ret_def)

lemma flipFaceHorizontal_Arrays_Inr:
  assumes "flipFaceHorizontal (Arrays a) W w = (Inr r, w')"
  shows "w' = w \<and> list_all (\<lambda>c. 2 \<le> length c) (mesh a) \<and>
         list_all (\<lambda>c. 2 \<le> length c) (scaledMesh a)"
proof -
  have *: "list_all (\<lambda>c. 2 \<le> length c) m" if "flipMeshArray W m = Some m'" for m m'
  proof -
    have "flipCoord W c \<noteq> None \<Longrightarrow> 2 \<le> length c" for c
      using flipCoord_None [of c W] by (cases "length c < 2") auto
    with that show ?thesis
      by (auto simp: flipMeshArray_def list_all_iff split: if_splits)
  qed
  from assms show ?thesis
    by (auto simp: ret_def throw_def * split: option.splits)
qed

lemma flipFaceHorizontal_Arrays_result:
  assumes "flipFaceHorizontal (Arrays a) W w = (Inr r, w')"
  shows "r = Arrays (a\<lparr>boundingBox :=
        \<lparr>topLeft = (W - 1 - fst (topLeft (boundingBox a)), snd (topLeft (boundingBox a))),
         bottomRight = (W - 1 - fst (bottomRight (boundingBox a)),
                        snd (bottomRight (boundingBox a)))\<rparr>,
        mesh := map (\<lambda>c. [W - 1 - c ! 0, c ! 1]) (mesh a),
        scaledMesh := map (\<lambda>c. [W - 1 - c ! 0, c ! 1]) (scaledMesh a)\<rparr>)"
proof -
  from flipFaceHorizontal_Arrays_Inr [OF assms]
  have rows: "list_all (\<lambda>c. 2 \<le> length c) (mesh a)" "list_all (\<lambda>c. 2 \<le> length c) (scaledMesh a)"
    by simp_all
  from assms show ?thesis
    unfolding flipFaceHorizontal_Arrays [OF rows] by simp
qed

lemma flipFaceHorizontal_Tensors:
  assumes wf: "wfWorld w" and h: "holds w f a"
  shows "flipFaceHorizontal (Tensors f) W w =
    (Inr (Tensors (f\<lparr>boundingBox :=
        \<lparr>topLeft = \<lparr>tid = nextId w + 4, shape = [2],
             vals = [W - 1 - fst (topLeft (boundingBox a)), snd (topLeft (boundingBox a))]\<rparr>,
         bottomRight = \<lparr>tid = nextId w + 9, shape = [2],
             vals = [W - 1 - fst (bottomRight (boundingBox a)),
                     snd (bottomRight (boundingBox a))]\<rparr>\<rparr>,
        mesh := \<lparr>tid = nextId w + 13, shape = [length (mesh a), 2],
             vals = concat (map (\<lambda>c. [W - 1 - c ! 0, c ! 1]) (mesh a))\<rparr>,
        scaledMesh := \<lparr>tid = nextId w + 17, shape = [length (scaledMesh a), 2],
             vals = concat (map (\<lambda>c. [W - 1 - c ! 0, c ! 1]) (scaledMesh a))\<rparr>\<rparr>)),
     w\<lparr>nextId := nextId w + 18\<rparr>)"
proof -
  define w1 where "w1 = w\<lparr>nextId := nextId w + 5\<rparr>"
  define w2 where "w2 = w1\<lparr>nextId := nextId w1 + 5\<rparr>"
  define w3 where "w3 = w2\<lparr>nextId := nextId w2 + 4\<rparr>"
  have wf1: "wfWorld w1" and wf2: "wfWorld w2" and wf3: "wfWorld w3"
    using wf by (simp_all add: w1_def w2_def w3_def wfWorld_nextId)
  from h have tl': "shape (topLeft (boundingBox f)) = [2]"
      "vals (topLeft (boundingBox f)) = [fst (topLeft (boundingBox a)), snd (topLeft (boundingBox a))]"
      "\<not> isDisposed w (topLeft (boundingBox f))"
    and br: "shape (bottomRight (boundingBox f)) = [2]"
      "vals (bottomRight (boundingBox f)) =
         [fst (bottomRight (boundingBox a)), snd (bottomRight (boundingBox a))]"
      "\<not> isDisposed w1 (bottomRight (boundingBox f))"
    and m: "shape (mesh f) = [length (mesh a), 2]" "vals (mesh f) = concat (mesh a)"
      "list_all (\<lambda>r. length r = 2) (mesh a)" "\<not> isDisposed w2 (mesh f)"
    and sm: "shape (scaledMesh f) = [length (scaledMesh a), 2]"
      "vals (scaledMesh f) = concat (scaledMesh a)"
      "list_all (\<lambda>r. length r = 2) (scaledMesh a)" "\<not> isDisposed w3 (scaledMesh f)"
    by (simp_all add: holds_def pointTensor_def meshTensor_def w1_def w2_def w3_def)
  note s1 = flipCornerTensor_point [OF tl'(1,2,3) wf, of W]
  note s2 = flipCornerTensor_point [OF br(1,2,3) wf1, of W]
  note s3 = flipMeshTensor_rows [OF m wf2, of W]
  note s4 = flipMeshTensor_rows [OF sm wf3, of W]
  show ?thesis
    by (simp add: andThen_def s1 [folded w1_def] s2 [folded w2_def] s3 [folded w3_def] s4 ret_def)
      (simp add: w1_def w2_def w3_def)
qed

lemma holds_flipped:
  assumes wf: "wfWorld w" and h: "holds w f a"
  shows "\<exists>f' w'. flipFaceHorizontal (Tensors f) W w = (Inr (Tensors f'), w') \<and>
     wfWorld w' \<and>
     holds w' f' (a\<lparr>boundingBox :=
        \<lparr>topLeft = (W - 1 - fst (topLeft (boundingBox a)), snd (topLeft (boundingBox a))),
         bottomRight = (W - 1 - fst (bottomRight (boundingBox a)),
                        snd (bottomRight (boundingBox a)))\<rparr>,
        mesh := map (\<lambda>c. [W - 1 - c ! 0, c ! 1]) (mesh a),
        scaledMesh := map (\<lambda>c. [W - 1 - c ! 0, c ! 1]) (scaledMesh a)\<rparr>)"
proof -
  have wf': "wfWorld (w\<lparr>nextId := nextId w + 18\<rparr>)"
    using wf by (simp add: wfWorld_nextId)
  from h have "shape (faceInViewConfidence f) = []"
      "vals (faceInViewConfidence f) = [faceInViewConfidence a]" "annotations f = annotations a"
    by (simp_all add: holds_def)
  then show ?thesis
    unfolding flipFaceHorizontal_Tensors [OF wf h]
    using wf'
    by (simp add: holds_def pointTensor_def meshTensor_def isDisposed_def fresh_ge [OF wf]
        list_all_iff)
qed




lemma rows2_ge: "list_all (\<lambda>r. length r = 2) m \<Longrightarrow> list_all (\<lambda>c. 2 \<le> length c) m"
  by (simp add: list_all_iff)

lemma flip_twice_rows:
  assumes "list_all (\<lambda>c. length c = 2) m"
  shows "map (\<lambda>c. [W - 1 - c ! 0, c ! 1]) (map (\<lambda>c. [W - 1 - c ! 0, c ! 1]) m) = (m :: real list list)"
proof -
  have "[W - 1 - [W - 1 - c ! 0, c ! 1] ! 0, [W - 1 - c ! 0, c ! 1] ! 1] = c"
    if "c \<in> set m" for c
  proof -
    from assms that have "length c = 2" by (simp add: list_all_iff)
    from two_list [OF this] show ?thesis by simp
  qed
  then show ?thesis
    by (simp add: map_idI)
qed

lemma boundingBox_eta: "\<lparr>topLeft = topLeft b, bottomRight = bottomRight b\<rparr> = (b :: 'p boundingBox)"
  by (cases b) simp

lemma example_holds: "wfWorld exampleWorld \<and> holds exampleWorld exampleTensors exampleArrays"
  by (simp add: wfWorld_def holds_def exampleWorld_def exampleTensors_def exampleArrays_def
      pointTensor_def meshTensor_def isDisposed_def)


lemma example_rows:
  "list_all (\<lambda>c. 2 \<le> length c) (mesh exampleArrays) \<and>
   list_all (\<lambda>c. 2 \<le> length c) (scaledMesh exampleArrays)"
  by (simp add: exampleArrays_def)

lemma example_rows2:
  "list_all (\<lambda>c. length c = 2) (mesh exampleArrays) \<and>
   list_all (\<lambda>c. length c = 2) (scaledMesh exampleArrays)"
  by (simp add: exampleArrays_def)







text \<open>
  Claim C4. Flipping twice with the same width gives the coordinates back: an
  array-typed result whose points have two coordinates is returned unchanged, and a
  buffer-typed result is returned in new buffers that hold the same arrays. (Numbers
  are reals here, so the coordinates are equal, not only close.)
\<close>

theorem flipFaceHorizontal_twice:
  "(list_all (\<lambda>c. length c = 2) (mesh a) \<and> list_all (\<lambda>c. length c = 2) (scaledMesh a) \<longrightarrow>
      (\<exists>a'. flipFaceHorizontal (Arrays a) W w = (Inr (Arrays a'), w) \<and>
            flipFaceHorizontal (Arrays a') W w = (Inr (Arrays a), w))) \<and>
   (wfWorld w \<and> holds w f a \<longrightarrow>
      (\<exists>f' w' f'' w''. flipFaceHorizontal (Tensors f) W w = (Inr (Tensors f'), w') \<and>
            flipFaceHorizontal (Tensors f') W w' = (Inr (Tensors f''), w'') \<and>
            holds w'' f'' a))"
proof (intro conjI impI)
  assume "list_all (\<lambda>c. length c = 2) (mesh a) \<and> list_all (\<lambda>c. length c = 2) (scaledMesh a)"
  then have rows: "list_all (\<lambda>c. length c = 2) (mesh a)"
      "list_all (\<lambda>c. length c = 2) (scaledMesh a)"
    by simp_all
  let ?g = "\<lambda>c. [W - 1 - c ! 0, c ! 1 :: real]"
  let ?a' = "a\<lparr>boundingBox :=
        \<lparr>topLeft = (W - 1 - fst (topLeft (boundingBox a)), snd (topLeft (boundingBox a))),
         bottomRight = (W - 1 - fst (bottomRight (boundingBox a)),
                        snd (bottomRight (boundingBox a)))\<rparr>,
        mesh := map ?g (mesh a), scaledMesh := map ?g (scaledMesh a)\<rparr>"
  have 1: "flipFaceHorizontal (Arrays a) W w = (Inr (Arrays ?a'), w)"
    by (rule flipFaceHorizontal_Arrays) (simp_all add: rows rows2_ge)
  have rows': "list_all (\<lambda>c. 2 \<le> length c) (mesh ?a')"
      "list_all (\<lambda>c. 2 \<le> length c) (scaledMesh ?a')"
    by (simp_all add: list_all_iff)
  have 2: "flipFaceHorizontal (Arrays ?a') W w = (Inr (Arrays a), w)"
    unfolding flipFaceHorizontal_Arrays [OF rows']
    by (simp add: flip_twice_rows [OF rows(1), unfolded One_nat_def]
        flip_twice_rows [OF rows(2), unfolded One_nat_def] boundingBox_eta
        del: map_map)
  from 1 2 show "\<exists>a'. flipFaceHorizontal (Arrays a) W w = (Inr (Arrays a'), w) \<and>
            flipFaceHorizontal (Arrays a') W w = (Inr (Arrays a), w)"
    by blast
next
  assume "wfWorld w \<and> holds w f a"
  then have wf: "wfWorld w" and h: "holds w f a" by simp_all
  let ?g = "\<lambda>c. [W - 1 - c ! 0, c ! 1 :: real]"
  let ?a' = "a\<lparr>boundingBox :=
        \<lparr>topLeft = (W - 1 - fst (topLeft (boundingBox a)), snd (topLeft (boundingBox a))),
         bottomRight = (W - 1 - fst (bottomRight (boundingBox a)),
                        snd (bottomRight (boundingBox a)))\<rparr>,
        mesh := map ?g (mesh a), scaledMesh := map ?g (scaledMesh a)\<rparr>"
  from h have rows: "list_all (\<lambda>c. length c = 2) (mesh a)"
      "list_all (\<lambda>c. length c = 2) (scaledMesh a)"
    by (simp_all add: holds_def meshTensor_def)
  from holds_flipped [OF wf h, of W] obtain f' w'
    where 1: "flipFaceHorizontal (Tensors f) W w = (Inr (Tensors f'), w')"
      and wf': "wfWorld w'" and h': "holds w' f' ?a'"
    by blast
  from holds_flipped [OF wf' h', of W] obtain f'' w''
    where 2: "flipFaceHorizontal (Tensors f') W w' = (Inr (Tensors f''), w'')"
      and h'': "holds w'' f'' a"
    by (auto simp: flip_twice_rows [OF rows(1), unfolded One_nat_def]
        flip_twice_rows [OF rows(2), unfolded One_nat_def] boundingBox_eta
        simp del: map_map)
  from 1 2 h'' show "\<exists>f' w' f'' w''. flipFaceHorizontal (Tensors f) W w = (Inr (Tensors f'), w') \<and>
            flipFaceHorizontal (Tensors f') W w' = (Inr (Tensors f''), w'') \<and>
            holds w'' f'' a"
    by blast
qed

theorem flipFaceHorizontal_twice_witness:
  "(list_all (\<lambda>c. length c = 2) (mesh exampleArrays) \<and>
    list_all (\<lambda>c. length c = 2) (scaledMesh exampleArrays)) \<and>
   (\<exists>a'. flipFaceHorizontal (Arrays exampleArrays) 640 exampleWorld
           = (Inr (Arrays a'), exampleWorld) \<and>
         flipFaceHorizontal (Arrays a') 640 exampleWorld
           = (Inr (Arrays exampleArrays), exampleWorld)) \<and>
   (wfWorld exampleWorld \<and> holds exampleWorld exampleTensors exampleArrays) \<and>
   (\<exists>f' w' f'' w''.
      flipFaceHorizontal (Tensors exampleTensors) 640 exampleWorld = (Inr (Tensors f'), w') \<and>
      flipFaceHorizontal (Tensors f') 640 w' = (Inr (Tensors f''), w'') \<and>
      holds w'' f'' exampleArrays)"
  using flipFaceHorizontal_twice [of exampleArrays 640 exampleWorld exampleTensors]
    example_rows2 example_holds
  by blast


text \<open>
  Claim C9. The flip mirrors each corner of the bounding box on its own and keeps the
  labels: the new \<open>topLeft\<close> is the mirror of the old \<open>topLeft\<close> and the new
  \<open>bottomRight\<close> the mirror of the old \<open>bottomRight\<close>, in both variants; so when
  \<open>topLeft\<close> was left of \<open>bottomRight\<close>, the new \<open>topLeft\<close> is right of the new
  \<open>bottomRight\<close>.
\<close>

theorem flipFaceHorizontal_corner_labels:
  "(\<forall>r w'. flipFaceHorizontal (Arrays a) W w = (Inr r, w') \<longrightarrow>
      (\<exists>a'. r = Arrays a' \<and>
         topLeft (boundingBox a') =
           (W - 1 - fst (topLeft (boundingBox a)), snd (topLeft (boundingBox a))) \<and>
         bottomRight (boundingBox a') =
           (W - 1 - fst (bottomRight (boundingBox a)), snd (bottomRight (boundingBox a))) \<and>
         (fst (topLeft (boundingBox a)) < fst (bottomRight (boundingBox a)) \<longrightarrow>
            fst (bottomRight (boundingBox a')) < fst (topLeft (boundingBox a'))))) \<and>
   (wfWorld w \<and> holds w f a \<longrightarrow>
      (\<exists>f' w'. flipFaceHorizontal (Tensors f) W w = (Inr (Tensors f'), w') \<and>
         vals (topLeft (boundingBox f')) =
           [W - 1 - fst (topLeft (boundingBox a)), snd (topLeft (boundingBox a))] \<and>
         vals (bottomRight (boundingBox f')) =
           [W - 1 - fst (bottomRight (boundingBox a)), snd (bottomRight (boundingBox a))] \<and>
         shape (topLeft (boundingBox f')) = [2] \<and>
         shape (bottomRight (boundingBox f')) = [2]))"
proof (intro conjI allI impI)
  fix r w'
  assume "flipFaceHorizontal (Arrays a) W w = (Inr r, w')"
  from flipFaceHorizontal_Arrays_result [OF this]
  show "\<exists>a'. r = Arrays a' \<and>
         topLeft (boundingBox a') =
           (W - 1 - fst (topLeft (boundingBox a)), snd (topLeft (boundingBox a))) \<and>
         bottomRight (boundingBox a') =
           (W - 1 - fst (bottomRight (boundingBox a)), snd (bottomRight (boundingBox a))) \<and>
         (fst (topLeft (boundingBox a)) < fst (bottomRight (boundingBox a)) \<longrightarrow>
            fst (bottomRight (boundingBox a')) < fst (topLeft (boundingBox a')))"
    by simp
next
  assume "wfWorld w \<and> holds w f a"
  then have wf: "wfWorld w" and h: "holds w f a" by simp_all
  show "\<exists>f' w'. flipFaceHorizontal (Tensors f) W w = (Inr (Tensors f'), w') \<and>
         vals (topLeft (boundingBox f')) =
           [W - 1 - fst (topLeft (boundingBox a)), snd (topLeft (boundingBox a))] \<and>
         vals (bottomRight (boundingBox f')) =
           [W - 1 - fst (bottomRight (boundingBox a)), snd (bottomRight (boundingBox a))] \<and>
         shape (topLeft (boundingBox f')) = [2] \<and>
         shape (bottomRight (boundingBox f')) = [2]"
    unfolding flipFaceHorizontal_Tensors [OF wf h] by simp
qed

theorem flipFaceHorizontal_corner_labels_witness:
  "(\<exists>r w'. flipFaceHorizontal (Arrays exampleArrays) 640 exampleWorld = (Inr r, w') \<and>
      (\<exists>a'. r = Arrays a' \<and>
         topLeft (boundingBox a') = (634, 5) \<and>
         bottomRight (boundingBox a') = (614, 25) \<and>
         fst (bottomRight (boundingBox a')) < fst (topLeft (boundingBox a')))) \<and>
   (wfWorld exampleWorld \<and> holds exampleWorld exampleTensors exampleArrays) \<and>
   (\<exists>f' w'. flipFaceHorizontal (Tensors exampleTensors) 640 exampleWorld
              = (Inr (Tensors f'), w') \<and>
      vals (topLeft (boundingBox f')) = [634, 5] \<and>
      vals (bottomRight (boundingBox f')) = [614, 25])"
proof -
  from example_rows obtain r
    where r: "flipFaceHorizontal (Arrays exampleArrays) 640 exampleWorld = (Inr r, exampleWorld)"
    using flipFaceHorizontal_Arrays [of exampleArrays 640 exampleWorld] by blast
  note c = flipFaceHorizontal_corner_labels [of exampleArrays 640 exampleWorld exampleTensors]
  from c r have "\<exists>a'. r = Arrays a' \<and>
         topLeft (boundingBox a') = (634, 5) \<and>
         bottomRight (boundingBox a') = (614, 25) \<and>
         fst (bottomRight (boundingBox a')) < fst (topLeft (boundingBox a'))"
    by (auto simp: exampleArrays_def)
  moreover from c example_holds
  have "\<exists>f' w'. flipFaceHorizontal (Tensors exampleTensors) 640 exampleWorld
              = (Inr (Tensors f'), w') \<and>
      vals (topLeft (boundingBox f')) = [634, 5] \<and>
      vals (bottomRight (boundingBox f')) = [614, 25]"
    by (auto simp: exampleArrays_def)
  ultimately show ?thesis
    using r example_holds by blast
qed

subsection \<open>Effects on the state\<close>

text \<open>
  The operations of the runtime allocate and release nothing; the flip is built from
  them, so it only allocates, and its tensors are new.
\<close>

lemma quietI:
  assumes "\<And>v. disposed (snd (m v)) = disposed v"
    and "\<And>v. regionsOfInterest (snd (m v)) = regionsOfInterest v"
    and "\<And>v. nextId v \<le> nextId (snd (m v))"
  shows "quiet m"
  using assms by (simp add: quiet_def)

lemma quietD:
  assumes "quiet m" "m v = (r, u)"
  shows "disposed u = disposed v" "regionsOfInterest u = regionsOfInterest v" "nextId v \<le> nextId u"
  using assms by (auto simp: quiet_def dest: spec [where x = v])

lemma allocatesD:
  assumes "allocates m" "m v = (Inr t, u)"
  shows "nextId v \<le> tid t" "tid t < nextId u"
  using assms by (auto simp: allocates_def dest: spec [where x = v])

lemma allocates_quiet: "allocates m \<Longrightarrow> quiet m"
  by (simp add: allocates_def)

lemma quiet_ret: "quiet (ret x)"
  by (simp add: quiet_def ret_def)

lemma quiet_throw: "quiet (throw e)"
  by (simp add: quiet_def throw_def)

lemma quiet_throwIfDisposed: "quiet (throwIfDisposed t)"
  by (simp add: quiet_def throwIfDisposed_def)

lemma quiet_andThen:
  assumes "quiet m" "\<And>x. quiet (f x)"
  shows "quiet (andThen m f)"
proof (rule quietI)
  fix v
  obtain r u where mv: "m v = (r, u)" by (cases "m v")
  note q = quietD [OF assms(1) mv]
  show "disposed (snd (andThen m f v)) = disposed v"
    "regionsOfInterest (snd (andThen m f v)) = regionsOfInterest v"
    "nextId v \<le> nextId (snd (andThen m f v))"
  proof (atomize (full), cases r)
    case (Inl e)
    with mv q show "disposed (snd (andThen m f v)) = disposed v \<and>
      regionsOfInterest (snd (andThen m f v)) = regionsOfInterest v \<and>
      nextId v \<le> nextId (snd (andThen m f v))"
      by (simp add: andThen_def)
  next
    case (Inr x)
    obtain r' u' where fx: "f x u = (r', u')" by (cases "f x u")
    note q' = quietD [OF assms(2) fx]
    from Inr mv fx q q' show "disposed (snd (andThen m f v)) = disposed v \<and>
      regionsOfInterest (snd (andThen m f v)) = regionsOfInterest v \<and>
      nextId v \<le> nextId (snd (andThen m f v))"
      by (simp add: andThen_def)
  qed
qed

lemma allocates_andThen:
  assumes "quiet m" "\<And>x. allocates (f x)"
  shows "allocates (andThen m f)"
  unfolding allocates_def
proof (intro conjI allI)
  show "quiet (andThen m f)"
    using assms by (simp add: quiet_andThen allocates_quiet)
next
  fix v
  obtain r u where mv: "m v = (r, u)" by (cases "m v")
  note q = quietD [OF assms(1) mv]
  show "case fst (andThen m f v) of Inl e \<Rightarrow> True
        | Inr t \<Rightarrow> nextId v \<le> tid t \<and> tid t < nextId (snd (andThen m f v))"
  proof (cases r)
    case (Inl e)
    with mv show ?thesis by (simp add: andThen_def)
  next
    case (Inr x)
    obtain r' u' where fx: "f x u = (r', u')" by (cases "f x u")
    show ?thesis
    proof (cases r')
      case (Inl e)
      with Inr mv fx show ?thesis by (simp add: andThen_def)
    next
      case r': (Inr t)
      from allocatesD [OF assms(2) fx [unfolded r']] q Inr mv fx r'
      show ?thesis by (simp add: andThen_def)
    qed
  qed
qed

lemma allocates_makeTensor: "allocates (makeTensor s x)"
  by (simp add: allocates_def quiet_def makeTensor_def)

lemma allocates_throw: "allocates (throw e)"
  by (simp add: allocates_def quiet_def throw_def)

lemma allocates_tensor1d: "allocates (tensor1d x)"
  by (simp add: tensor1d_def allocates_makeTensor)

lemma allocates_scalar: "allocates (scalar x)"
  by (simp add: scalar_def allocates_makeTensor)

lemma allocates_slice: "allocates (slice t b n)"
  unfolding slice_def
  by (intro allocates_andThen quiet_throwIfDisposed)
    (simp add: allocates_makeTensor allocates_throw split: list.split)

lemma allocates_binaryOp: "allocates (binaryOp f a b)"
  unfolding binaryOp_def
  by (intro allocates_andThen quiet_throwIfDisposed)
    (simp add: allocates_makeTensor allocates_throw split: option.split)

lemma allocates_concat0: "allocates (concat0 ts)"
  by (auto simp: allocates_def quiet_def concat0_def makeTensor_def split: list.split)

lemma allocates_flipCornerTensor: "allocates (flipCornerTensor W c)"
  unfolding flipCornerTensor_def sub_def
  by (intro allocates_andThen allocates_quiet allocates_slice allocates_scalar
      allocates_binaryOp allocates_concat0)

lemma allocates_flipMeshTensor: "allocates (flipMeshTensor W c)"
  unfolding flipMeshTensor_def sub_def mul_def
  by (intro allocates_andThen allocates_quiet allocates_tensor1d allocates_binaryOp)

lemma quiet_flipFaceHorizontal: "quiet (flipFaceHorizontal x W)"
proof (cases x)
  case (Tensors f)
  show ?thesis
    unfolding Tensors flipFaceHorizontal.simps
    by (intro quiet_andThen allocates_quiet allocates_flipCornerTensor
        allocates_flipMeshTensor quiet_ret)
next
  case (Arrays a)
  show ?thesis
    unfolding Arrays flipFaceHorizontal.simps
    by (simp add: quiet_ret quiet_throw split: option.split)
qed

lemma andThen_InrE:
  assumes "andThen m f v = (Inr y, u)"
  obtains x v' where "m v = (Inr x, v')" "f x v' = (Inr y, u)"
  using assms by (auto simp: andThen_def split: prod.splits sum.splits)

lemma flipFaceHorizontal_Tensors_Inr:
  assumes "flipFaceHorizontal (Tensors f) W v = (Inr r, u)"
  shows "\<exists>f'. r = Tensors f' \<and>
     faceInViewConfidence f' = faceInViewConfidence f \<and>
     annotations f' = annotations f \<and>
     nextId v \<le> tid (topLeft (boundingBox f')) \<and>
     nextId v \<le> tid (bottomRight (boundingBox f')) \<and>
     nextId v \<le> tid (mesh f') \<and>
     nextId v \<le> tid (scaledMesh f')"
proof -
  from assms [unfolded flipFaceHorizontal.simps]
  obtain t1 v1 where 1: "flipCornerTensor W (topLeft (boundingBox f)) v = (Inr t1, v1)"
    and r1: "andThen (flipCornerTensor W (bottomRight (boundingBox f))) (\<lambda>br'.
     andThen (flipMeshTensor W (mesh f)) (\<lambda>mesh'.
     andThen (flipMeshTensor W (scaledMesh f)) (\<lambda>scaledMesh'.
       ret (Tensors (f\<lparr>boundingBox := \<lparr>topLeft = t1, bottomRight = br'\<rparr>,
                          mesh := mesh', scaledMesh := scaledMesh'\<rparr>))))) v1 = (Inr r, u)"
    by (rule andThen_InrE)
  from r1 obtain t2 v2 where 2: "flipCornerTensor W (bottomRight (boundingBox f)) v1 = (Inr t2, v2)"
    and r2: "andThen (flipMeshTensor W (mesh f)) (\<lambda>mesh'.
     andThen (flipMeshTensor W (scaledMesh f)) (\<lambda>scaledMesh'.
       ret (Tensors (f\<lparr>boundingBox := \<lparr>topLeft = t1, bottomRight = t2\<rparr>,
                          mesh := mesh', scaledMesh := scaledMesh'\<rparr>)))) v2 = (Inr r, u)"
    by (rule andThen_InrE)
  from r2 obtain t3 v3 where 3: "flipMeshTensor W (mesh f) v2 = (Inr t3, v3)"
    and r3: "andThen (flipMeshTensor W (scaledMesh f)) (\<lambda>scaledMesh'.
       ret (Tensors (f\<lparr>boundingBox := \<lparr>topLeft = t1, bottomRight = t2\<rparr>,
                          mesh := t3, scaledMesh := scaledMesh'\<rparr>))) v3 = (Inr r, u)"
    by (rule andThen_InrE)
  from r3 obtain t4 v4 where 4: "flipMeshTensor W (scaledMesh f) v3 = (Inr t4, v4)"
    and r4: "ret (Tensors (f\<lparr>boundingBox := \<lparr>topLeft = t1, bottomRight = t2\<rparr>,
                          mesh := t3, scaledMesh := t4\<rparr>)) v4 = (Inr r, u)"
    by (rule andThen_InrE)
  note a1 = allocatesD [OF allocates_flipCornerTensor 1]
    and a2 = allocatesD [OF allocates_flipCornerTensor 2]
    and a3 = allocatesD [OF allocates_flipMeshTensor 3]
    and a4 = allocatesD [OF allocates_flipMeshTensor 4]
  from r4 have "r = Tensors (f\<lparr>boundingBox := \<lparr>topLeft = t1, bottomRight = t2\<rparr>,
                          mesh := t3, scaledMesh := t4\<rparr>)"
    by (simp add: ret_def)
  with a1 a2 a3 a4 show ?thesis by simp
qed

lemma quiet_flipIf: "quiet (flipIf fh wd x)"
  by (simp add: flipIf_def quiet_flipFaceHorizontal quiet_ret quiet_throw split: option.split)


text \<open>Nothing in \<open>estimateFaces\<close> after the call of the pipeline brings a released tensor back.\<close>

lemma growsD: "grows m \<Longrightarrow> disposed v \<subseteq> disposed (snd (m v))"
  by (simp add: grows_def)

lemma grows_quiet: "quiet m \<Longrightarrow> grows m"
  by (simp add: quiet_def grows_def)

lemma grows_ret: "grows (ret x)"
  by (simp add: grows_def ret_def)

lemma grows_throw: "grows (throw e)"
  by (simp add: grows_def throw_def)

lemma grows_andThen:
  assumes "grows m" "\<And>x. grows (f x)"
  shows "grows (andThen m f)"
  unfolding grows_def
proof
  fix v
  obtain r v' where mv: "m v = (r, v')" by (cases "m v")
  from growsD [OF assms(1), of v] mv have m: "disposed v \<subseteq> disposed v'" by simp
  show "disposed v \<subseteq> disposed (snd (andThen m f v))"
  proof (cases r)
    case (Inl e)
    with mv m show ?thesis by (simp add: andThen_def)
  next
    case (Inr x)
    with mv m growsD [OF assms(2), of v' x] show ?thesis by (auto simp: andThen_def)
  qed
qed

lemma disposed_clearPipelineROIs [simp]:
  "disposed (clearPipelineROIs this c w) = disposed w"
  by (simp add: clearPipelineROIs_def clearROIs_def)

lemma nextId_clearPipelineROIs [simp]:
  "nextId (clearPipelineROIs this c w) = nextId w"
  by (simp add: clearPipelineROIs_def clearROIs_def)

lemma grows_disposeFlag: "grows (disposeFlag this p c)"
  by (auto simp: grows_def disposeFlag_def dispose_def)

lemma grows_disposeCoords: "grows (disposeCoords p)"
  by (auto simp: grows_def disposeCoords_def dispose_def)

lemma grows_flipIf: "grows (flipIf fh wd x)"
  by (rule grows_quiet) (rule quiet_flipIf)

lemma grows_assemble: "grows (assemble T this wd rt fh p tv)"
  unfolding assemble_def
  by (simp add: grows_throw grows_ret grows_andThen grows_disposeFlag grows_disposeCoords
      grows_flipIf split: list.split option.split AnnotatedPrediction.split)

lemma grows_callback: "grows (callback T this wd rt fh w0 p)"
  by (simp add: callback_def grows_throw grows_assemble split: sum.split)

lemma grows_promiseAll:
  assumes "\<And>m. m \<in> set ms \<Longrightarrow> grows m"
  shows "grows (promiseAll ms)"
  using assms
proof (induction ms)
  case Nil
  then show ?case by (simp add: grows_def)
next
  case (Cons m ms)
  have gm: "grows m" and gms: "grows (promiseAll ms)"
    using Cons by simp_all
  show ?case
    unfolding grows_def
  proof
    fix w
    obtain r w1 where m: "m w = (r, w1)" by (cases "m w")
    obtain rs w2 where ms: "promiseAll ms w1 = (rs, w2)" by (cases "promiseAll ms w1")
    from growsD [OF gm, of w] m have "disposed w \<subseteq> disposed w1" by simp
    moreover from growsD [OF gms, of w1] ms have "disposed w1 \<subseteq> disposed w2" by simp
    ultimately show "disposed w \<subseteq> disposed (snd (promiseAll (m # ms) w))"
      using m ms by (auto split: sum.splits)
  qed
qed

lemma grows_callbacks:
  "grows (\<lambda>w. promiseAll (map (callback T this wd rt fh w) ps) w)"
  unfolding grows_def
proof
  fix v
  have "grows (promiseAll (map (callback T this wd rt fh v) ps))"
    by (rule grows_promiseAll) (auto simp: grows_callback)
  then show "disposed v \<subseteq> disposed (snd (promiseAll (map (callback T this wd rt fh v) ps) v))"
    by (rule growsD)
qed

lemma estimateFaces_after_predict:
  assumes prep: "prepareImage inp w = (Inr (input', inputToFloat, img), w1)"
    and pred: "predict img w1 = (Inr predictions, w2)"
  shows "estimateFaces predict T this inp rt fh w =
    (case predictions of
       Some (p # ps) \<Rightarrow>
         andThen (\<lambda>w. promiseAll
                    (map (callback T this (snd (getInputTensorDimensions (TensorInput input')))
                            rt fh w) (p # ps)) w)
           (\<lambda>results. ret (Some results))
     | _ \<Rightarrow> ret None) (dispose inputToFloat (dispose input' w2))"
  by (simp add: estimateFaces_def andThen_def prep pred releaseInput_def)

lemma example_prepareImage:
  "prepareImage exampleInput exampleWorld =
     (Inr (\<lparr>tid = 40, shape = [1, 2, 3], vals = [255, 0, 0, 0, 255, 0]\<rparr>,
           \<lparr>tid = 41, shape = [1, 2, 3], vals = [255, 0, 0, 0, 255, 0]\<rparr>,
           \<lparr>tid = 42, shape = [1, 1, 2, 3], vals = [255, 0, 0, 0, 255, 0]\<rparr>),
      exampleWorld\<lparr>nextId := 43\<rparr>)"
  by (simp add: prepareImage_def exampleInput_def exampleWorld_def andThen_def fromPixels_def
      toFloat_def expandDims0_def makeTensor_def throwIfDisposed_def isDisposed_def ret_def)


subsection \<open>The release of the input\<close>

text \<open>
  Claim C7, as the code has it. When the call reaches the pipeline and \<open>predict\<close>
  returns, the input tensor (the caller's, or the one made from the pixels) and its float
  conversion are released in the state \<open>estimateFaces\<close> ends in, whatever happens to
  the predictions afterwards. When \<open>predict\<close> fails, \<open>estimateFaces\<close> fails with the same
  error in the state \<open>predict\<close> left: lines 156-157 are not reached and nothing is
  released.
\<close>

theorem estimateFaces_releases_input:
  "prepareImage inp w = (Inr (input', inputToFloat, img), w1) \<longrightarrow>
     (\<forall>predictions w2. predict img w1 = (Inr predictions, w2) \<longrightarrow>
        isDisposed (snd (estimateFaces predict T this inp rt fh w)) input' \<and>
        isDisposed (snd (estimateFaces predict T this inp rt fh w)) inputToFloat) \<and>
     (\<forall>e w2. predict img w1 = (Inl e, w2) \<longrightarrow>
        estimateFaces predict T this inp rt fh w = (Inl e, w2))"
proof (intro impI conjI allI)
  fix predictions w2
  assume prep: "prepareImage inp w = (Inr (input', inputToFloat, img), w1)"
    and pred: "predict img w1 = (Inr predictions, w2)"
  let ?w3 = "dispose inputToFloat (dispose input' w2)"
  let ?rest = "case predictions of
       Some (p # ps) \<Rightarrow>
         andThen (\<lambda>w. promiseAll
                    (map (callback T this (snd (getInputTensorDimensions (TensorInput input')))
                            rt fh w) (p # ps)) w)
           (\<lambda>results. ret (Some results))
     | _ \<Rightarrow> ret None"
  have "grows ?rest"
    by (simp add: grows_ret grows_andThen grows_callbacks del: promiseAll.simps list.map
        split: option.split list.split)
  from growsD [OF this, of ?w3]
  have "disposed ?w3 \<subseteq> disposed (snd (estimateFaces predict T this inp rt fh w))"
    by (simp only: estimateFaces_after_predict
        [of inp w input' inputToFloat img w1 predict predictions w2, OF prep pred])
  then show "isDisposed (snd (estimateFaces predict T this inp rt fh w)) input'"
    and "isDisposed (snd (estimateFaces predict T this inp rt fh w)) inputToFloat"
    by (auto simp: isDisposed_def dispose_def)
next
  fix e w2
  assume prep: "prepareImage inp w = (Inr (input', inputToFloat, img), w1)"
    and pred: "predict img w1 = (Inl e, w2)"
  then show "estimateFaces predict T this inp rt fh w = (Inl e, w2)"
    by (simp add: estimateFaces_def andThen_def)
qed

theorem estimateFaces_releases_input_witness:
  "prepareImage exampleInput exampleWorld =
     (Inr (\<lparr>tid = 40, shape = [1, 2, 3], vals = [255, 0, 0, 0, 255, 0]\<rparr>,
           \<lparr>tid = 41, shape = [1, 2, 3], vals = [255, 0, 0, 0, 255, 0]\<rparr>,
           \<lparr>tid = 42, shape = [1, 1, 2, 3], vals = [255, 0, 0, 0, 255, 0]\<rparr>),
      exampleWorld\<lparr>nextId := 43\<rparr>) \<and>
   examplePredict \<lparr>tid = 42, shape = [1, 1, 2, 3], vals = [255, 0, 0, 0, 255, 0]\<rparr>
       (exampleWorld\<lparr>nextId := 43\<rparr>)
     = (Inr (Some [examplePrediction]), exampleWorld\<lparr>nextId := 43\<rparr>) \<and>
   isDisposed
       (snd (estimateFaces examplePredict exampleTable (load noOptions) exampleInput False False
               exampleWorld))
       \<lparr>tid = 40, shape = [1, 2, 3], vals = [255, 0, 0, 0, 255, 0]\<rparr> \<and>
   isDisposed
       (snd (estimateFaces examplePredict exampleTable (load noOptions) exampleInput False False
               exampleWorld))
       \<lparr>tid = 41, shape = [1, 2, 3], vals = [255, 0, 0, 0, 255, 0]\<rparr> \<and>
   failingPredict \<lparr>tid = 42, shape = [1, 1, 2, 3], vals = [255, 0, 0, 0, 255, 0]\<rparr>
       (exampleWorld\<lparr>nextId := 43\<rparr>)
     = (Inl PredictFailed, exampleWorld\<lparr>nextId := 43\<rparr>) \<and>
   estimateFaces failingPredict exampleTable (load noOptions) exampleInput False False
       exampleWorld = (Inl PredictFailed, exampleWorld\<lparr>nextId := 43\<rparr>)"
proof -
  let ?img = "\<lparr>tid = 42, shape = [1, 1, 2, 3], vals = [255, 0, 0, 0, 255, 0]\<rparr>"
  have 1: "examplePredict ?img (exampleWorld\<lparr>nextId := 43\<rparr>)
     = (Inr (Some [examplePrediction]), exampleWorld\<lparr>nextId := 43\<rparr>)"
    by (simp add: examplePredict_def ret_def)
  have 2: "failingPredict ?img (exampleWorld\<lparr>nextId := 43\<rparr>)
     = (Inl PredictFailed, exampleWorld\<lparr>nextId := 43\<rparr>)"
    by (simp add: failingPredict_def throw_def)
  from estimateFaces_releases_input [of exampleInput exampleWorld _ _ ?img _ examplePredict
      exampleTable "load noOptions" False False] example_prepareImage 1
    estimateFaces_releases_input [of exampleInput exampleWorld _ _ ?img _ failingPredict
      exampleTable "load noOptions" False False] 2
  show ?thesis
    by blast
qed


text \<open>
  The claim as stated (both buffers released also when \<open>predict\<close> fails) does not hold:
  with a pipeline that fails, the tensor made from the pixels (handle 40) and its float
  conversion (handle 41) are still live when \<open>estimateFaces\<close> has failed.
\<close>

theorem estimateFaces_leaks_on_failure:
  "prepareImage exampleInput exampleWorld =
     (Inr (\<lparr>tid = 40, shape = [1, 2, 3], vals = [255, 0, 0, 0, 255, 0]\<rparr>,
           \<lparr>tid = 41, shape = [1, 2, 3], vals = [255, 0, 0, 0, 255, 0]\<rparr>,
           \<lparr>tid = 42, shape = [1, 1, 2, 3], vals = [255, 0, 0, 0, 255, 0]\<rparr>),
      exampleWorld\<lparr>nextId := 43\<rparr>) \<and>
   fst (estimateFaces failingPredict exampleTable (load noOptions) exampleInput False False
          exampleWorld) = Inl PredictFailed \<and>
   \<not> isDisposed
       (snd (estimateFaces failingPredict exampleTable (load noOptions) exampleInput False False
               exampleWorld))
       \<lparr>tid = 40, shape = [1, 2, 3], vals = [255, 0, 0, 0, 255, 0]\<rparr> \<and>
   \<not> isDisposed
       (snd (estimateFaces failingPredict exampleTable (load noOptions) exampleInput False False
               exampleWorld))
       \<lparr>tid = 41, shape = [1, 2, 3], vals = [255, 0, 0, 0, 255, 0]\<rparr>"
proof -
  have "estimateFaces failingPredict exampleTable (load noOptions) exampleInput False False
          exampleWorld = (Inl PredictFailed, exampleWorld\<lparr>nextId := 43\<rparr>)"
    by (simp add: estimateFaces_def andThen_def example_prepareImage failingPredict_def throw_def)
  with example_prepareImage show ?thesis
    by (simp add: isDisposed_def exampleWorld_def)
qed

subsection \<open>The callbacks of the predictions\<close>

text \<open>
  \<open>promiseAll\<close> returns one result for each callback, in the order of the callbacks.
\<close>

lemma promiseAll_Inr:
  "promiseAll ms w = (Inr rs, w') \<Longrightarrow>
   length rs = length ms \<and> (\<forall>i < length ms. \<exists>v u. (ms ! i) v = (Inr (rs ! i), u))"
proof (induction ms arbitrary: w rs w')
  case Nil
  then show ?case by simp
next
  case (Cons m ms)
  obtain r w1 where m: "m w = (r, w1)" by (cases "m w")
  obtain rs' w2 where ms: "promiseAll ms w1 = (rs', w2)" by (cases "promiseAll ms w1")
  from Cons.prems m ms obtain x xs where r: "r = Inr x" and rs': "rs' = Inr xs"
    and rs: "rs = x # xs"
    by (auto split: sum.splits)
  from Cons.IH [OF ms [unfolded rs']]
  have len: "length xs = length ms"
    and nth: "\<forall>i < length ms. \<exists>v u. (ms ! i) v = (Inr (xs ! i), u)"
    by simp_all
  show ?case
  proof (intro conjI allI impI)
    show "length rs = length (m # ms)" using len rs by simp
  next
    fix i assume "i < length (m # ms)"
    then show "\<exists>v u. ((m # ms) ! i) v = (Inr (rs ! i), u)"
      using m r rs nth by (cases i) auto
  qed
qed

lemma allOrFirst_Inr:
  "allOrFirst rs = Inr xs \<Longrightarrow> rs = map Inr xs"
proof (induction rs arbitrary: xs)
  case Nil
  then show ?case by simp
next
  case (Cons r rs)
  then show ?case by (cases r) (auto split: sum.splits)
qed

lemma readTensors_True:
  assumes "readTensors True w0 p = Inr tv"
  shows "\<exists>x. tv = [x] \<and> array w0 (flag p) = Inr x"
proof -
  from assms have "map (array w0) [flag p] = map Inr tv"
    by (simp add: readTensors_def tensorsToRead_def allOrFirst_Inr)
  then show ?thesis
    by (cases tv; cases "tl tv") auto
qed

lemma readTensors_False:
  assumes "readTensors False w0 p = Inr tv"
  shows "\<exists>x a b c d. tv = [x, a, b, c, d] \<and> array w0 (flag p) = Inr x \<and>
     array w0 (coords p) = Inr a \<and> array w0 (scaledCoords p) = Inr b \<and>
     array w0 (startPoint (box p)) = Inr c \<and> array w0 (endPoint (box p)) = Inr d"
proof -
  from assms have "map (array w0) [flag p, coords p, scaledCoords p, startPoint (box p),
      endPoint (box p)] = map Inr tv"
    by (simp add: readTensors_def tensorsToRead_def allOrFirst_Inr)
  then show ?thesis
    by (cases tv; cases "tl tv"; cases "tl (tl tv)"; cases "tl (tl (tl tv))";
        cases "tl (tl (tl (tl tv)))") auto
qed

lemma asNumber_Some: "asNumber x = Some c \<Longrightarrow> x = JNum c"
  by (cases x) auto


text \<open>
  What a callback that succeeds returns. With raw buffers: the confidence buffer of the
  prediction, released, no annotations, and spatial buffers that are the prediction's
  own or new ones. With arrays: the confidence read from the buffer, and the annotations
  of the scaled mesh of the result.
\<close>

lemma flipIf_Tensors_Inr:
  assumes "flipIf fh wd (Tensors f) v = (Inr r, u)"
  shows "\<exists>f'. r = Tensors f' \<and>
     faceInViewConfidence f' = faceInViewConfidence f \<and>
     annotations f' = annotations f \<and>
     disposed u = disposed v \<and> nextId v \<le> nextId u \<and>
     (topLeft (boundingBox f') = topLeft (boundingBox f) \<or>
        nextId v \<le> tid (topLeft (boundingBox f'))) \<and>
     (bottomRight (boundingBox f') = bottomRight (boundingBox f) \<or>
        nextId v \<le> tid (bottomRight (boundingBox f'))) \<and>
     (mesh f' = mesh f \<or> nextId v \<le> tid (mesh f')) \<and>
     (scaledMesh f' = scaledMesh f \<or> nextId v \<le> tid (scaledMesh f'))"
proof (cases fh)
  case False
  with assms show ?thesis by (auto simp: flipIf_def ret_def)
next
  case True
  with assms obtain W where run: "flipFaceHorizontal (Tensors f) W v = (Inr r, u)"
    by (auto simp: flipIf_def throw_def split: option.splits)
  from quietD [OF quiet_flipFaceHorizontal run] flipFaceHorizontal_Tensors_Inr [OF run]
  show ?thesis by auto
qed

lemma callback_Tensors:
  assumes "callback T this wd True fh w0 p v = (Inr r, u)"
  shows "\<exists>f. r = Tensors f \<and>
     faceInViewConfidence f = flag p \<and>
     annotations f = None \<and>
     disposed u = insert (tid (flag p)) (disposed v) \<and> nextId v \<le> nextId u \<and>
     (topLeft (boundingBox f) = startPoint (box p) \<or> nextId v \<le> tid (topLeft (boundingBox f))) \<and>
     (bottomRight (boundingBox f) = endPoint (box p) \<or>
        nextId v \<le> tid (bottomRight (boundingBox f))) \<and>
     (mesh f = coords p \<or> nextId v \<le> tid (mesh f)) \<and>
     (scaledMesh f = scaledCoords p \<or> nextId v \<le> tid (scaledMesh f))"
proof -
  from assms obtain tv where tv: "readTensors True w0 p = Inr tv"
    and a: "assemble T this wd True fh p tv v = (Inr r, u)"
    by (auto simp: callback_def throw_def split: sum.splits)
  from readTensors_True [OF tv] obtain x where x: "tv = [x]" by blast
  let ?F = "\<lparr>faceInViewConfidence = flag p,
             boundingBox = \<lparr>topLeft = startPoint (box p), bottomRight = endPoint (box p)\<rparr>,
             mesh = coords p, scaledMesh = scaledCoords p, annotations = None\<rparr>"
  from a x obtain c where
    run: "flipIf fh wd (Tensors ?F) (clearPipelineROIs this c (dispose (flag p) v)) = (Inr r, u)"
    by (auto simp: assemble_def throw_def andThen_def disposeFlag_def split: option.splits)
  from flipIf_Tensors_Inr [OF run] show ?thesis
    by (auto simp: dispose_def)
qed

lemma flipIf_Arrays_Inr:
  assumes "flipIf fh wd (Arrays a) v = (Inr r, u)"
  shows "\<exists>a'. r = Arrays a' \<and> faceInViewConfidence a' = faceInViewConfidence a \<and>
     annotations a' = annotations a"
proof (cases fh)
  case False
  with assms show ?thesis by (auto simp: flipIf_def ret_def)
next
  case True
  with assms obtain W where run: "flipFaceHorizontal (Arrays a) W v = (Inr r, u)"
    by (auto simp: flipIf_def throw_def split: option.splits)
  from flipFaceHorizontal_Arrays_result [OF run] show ?thesis by simp
qed

lemma callback_Arrays:
  assumes "callback T this wd False fh w0 p v = (Inr r, u)"
  shows "\<exists>f. r = Arrays f \<and>
     annotations f = Some (annotate T (scaledMesh f)) \<and>
     array w0 (flag p) = Inr (JNum (faceInViewConfidence f))"
proof -
  from assms obtain tv where tv: "readTensors False w0 p = Inr tv"
    and a: "assemble T this wd False fh p tv v = (Inr r, u)"
    by (auto simp: callback_def throw_def split: sum.splits)
  from readTensors_False [OF tv] obtain x a' b c d
    where x: "tv = [x, a', b, c, d]" and fl: "array w0 (flag p) = Inr x"
    by blast
  from a x obtain fv where fv: "asNumber x = Some fv"
    by (auto simp: assemble_def throw_def split: option.splits)
  from a x fv obtain A v1 ap v2 where
    run: "flipIf fh wd (Arrays A) v1 = (Inr ap, v2)"
    and A: "faceInViewConfidence A = fv"
    and fin: "(case ap of
                Arrays face \<Rightarrow>
                  ret (Arrays (face\<lparr>annotations := Some (annotate T (scaledMesh face))\<rparr>))
              | Tensors _ \<Rightarrow> throw IllTyped) v2 = (Inr r, u)"
    by (auto simp: assemble_def throw_def disposeFlag_def disposeCoords_def
        split: option.splits elim!: andThen_InrE)
  from flipIf_Arrays_Inr [OF run] obtain face where face: "ap = Arrays face"
    "faceInViewConfidence face = fv"
    using A by auto
  from fin face have "r = Arrays (face\<lparr>annotations := Some (annotate T (scaledMesh face))\<rparr>)"
    by (simp add: ret_def)
  with face fl asNumber_Some [OF fv] show ?thesis by simp
qed

lemma estimateFaces_Some:
  assumes "estimateFaces predict T this inp rt fh w = (Inr (Some rs), w')"
  shows "\<exists>input' inputToFloat img w1 ps w2.
     prepareImage inp w = (Inr (input', inputToFloat, img), w1) \<and>
     predict img w1 = (Inr (Some ps), w2) \<and> ps \<noteq> [] \<and>
     promiseAll (map (callback T this (snd (getInputTensorDimensions (TensorInput input')))
                        rt fh (dispose inputToFloat (dispose input' w2))) ps)
       (dispose inputToFloat (dispose input' w2)) = (Inr rs, w')"
proof -
  from assms [unfolded estimateFaces_def] obtain x w1
    where prep: "prepareImage inp w = (Inr x, w1)"
      and rest: "(case x of (input', inputToFloat, im) \<Rightarrow>
         andThen (predict im) (\<lambda>predictions.
         andThen (releaseInput input' inputToFloat) (\<lambda>_.
           case predictions of
             Some (p # ps) \<Rightarrow>
               andThen (\<lambda>w. promiseAll
                          (map (callback T this
                                  (snd (getInputTensorDimensions (TensorInput input')))
                                  rt fh w) (p # ps)) w)
                 (\<lambda>results. ret (Some results))
           | _ \<Rightarrow> ret None))) w1 = (Inr (Some rs), w')"
    by (rule andThen_InrE)
  obtain input' inputToFloat img where x: "x = (input', inputToFloat, img)"
    by (cases x)
  from rest [unfolded x prod.case] obtain predictions w2
    where pred: "predict img w1 = (Inr predictions, w2)"
      and rest2: "andThen (releaseInput input' inputToFloat) (\<lambda>_.
           case predictions of
             Some (p # ps) \<Rightarrow>
               andThen (\<lambda>w. promiseAll
                          (map (callback T this
                                  (snd (getInputTensorDimensions (TensorInput input')))
                                  rt fh w) (p # ps)) w)
                 (\<lambda>results. ret (Some results))
           | _ \<Rightarrow> ret None) w2 = (Inr (Some rs), w')"
    by (rule andThen_InrE)
  let ?w3 = "dispose inputToFloat (dispose input' w2)"
  from rest2 have rest3: "(case predictions of
             Some (p # ps) \<Rightarrow>
               andThen (\<lambda>w. promiseAll
                          (map (callback T this
                                  (snd (getInputTensorDimensions (TensorInput input')))
                                  rt fh w) (p # ps)) w)
                 (\<lambda>results. ret (Some results))
           | _ \<Rightarrow> ret None) ?w3 = (Inr (Some rs), w')"
    by (simp add: andThen_def releaseInput_def)
  then obtain ps where ps: "predictions = Some ps" "ps \<noteq> []"
    by (cases predictions; cases "the predictions") (auto simp: ret_def)
  from rest3 ps have "promiseAll (map (callback T this
        (snd (getInputTensorDimensions (TensorInput input'))) rt fh ?w3) ps) ?w3 = (Inr rs, w')"
    by (cases ps) (auto simp: ret_def elim!: andThen_InrE simp del: promiseAll.simps)
  with prep x pred ps show ?thesis by blast
qed

lemma promiseAll_Tensors:
  assumes "promiseAll (map (callback T this wd True fh w0) ps) v = (Inr rs, u)"
  shows "length rs = length ps \<and>
     disposed u = disposed v \<union> tid ` flag ` set ps \<and>
     nextId v \<le> nextId u \<and>
     (\<forall>i < length ps. \<exists>f. rs ! i = Tensors f \<and>
        faceInViewConfidence f = flag (ps ! i) \<and>
        (topLeft (boundingBox f) = startPoint (box (ps ! i)) \<or>
           nextId v \<le> tid (topLeft (boundingBox f))) \<and>
        (bottomRight (boundingBox f) = endPoint (box (ps ! i)) \<or>
           nextId v \<le> tid (bottomRight (boundingBox f))) \<and>
        (mesh f = coords (ps ! i) \<or> nextId v \<le> tid (mesh f)) \<and>
        (scaledMesh f = scaledCoords (ps ! i) \<or> nextId v \<le> tid (scaledMesh f)))"
  using assms
proof (induction ps arbitrary: v rs)
  case Nil
  then show ?case by simp
next
  case (Cons p ps)
  let ?m = "callback T this wd True fh w0"
  obtain r v1 where m: "?m p v = (r, v1)" by (cases "?m p v")
  obtain rs' w2 where ms: "promiseAll (map ?m ps) v1 = (rs', w2)"
    by (cases "promiseAll (map ?m ps) v1")
  from Cons.prems m ms obtain x xs where r: "r = Inr x" and rs': "rs' = Inr xs"
    and rs: "rs = x # xs" and u: "w2 = u"
    by (auto split: sum.splits)
  from callback_Tensors [OF m [unfolded r]] obtain f where f: "x = Tensors f"
    "faceInViewConfidence f = flag p"
    "disposed v1 = insert (tid (flag p)) (disposed v)" "nextId v \<le> nextId v1"
    "topLeft (boundingBox f) = startPoint (box p) \<or> nextId v \<le> tid (topLeft (boundingBox f))"
    "bottomRight (boundingBox f) = endPoint (box p) \<or>
        nextId v \<le> tid (bottomRight (boundingBox f))"
    "mesh f = coords p \<or> nextId v \<le> tid (mesh f)"
    "scaledMesh f = scaledCoords p \<or> nextId v \<le> tid (scaledMesh f)"
    by blast
  note IH = Cons.IH [OF ms [unfolded rs' u]]
  show ?case
  proof (intro conjI allI impI)
    show "length rs = length (p # ps)" using IH rs by simp
    show "disposed u = disposed v \<union> tid ` flag ` set (p # ps)" using IH f(3) by auto
    show "nextId v \<le> nextId u" using IH f(4) by simp
  next
    fix i assume i: "i < length (p # ps)"
    show "\<exists>f. rs ! i = Tensors f \<and>
        faceInViewConfidence f = flag ((p # ps) ! i) \<and>
        (topLeft (boundingBox f) = startPoint (box ((p # ps) ! i)) \<or>
           nextId v \<le> tid (topLeft (boundingBox f))) \<and>
        (bottomRight (boundingBox f) = endPoint (box ((p # ps) ! i)) \<or>
           nextId v \<le> tid (bottomRight (boundingBox f))) \<and>
        (mesh f = coords ((p # ps) ! i) \<or> nextId v \<le> tid (mesh f)) \<and>
        (scaledMesh f = scaledCoords ((p # ps) ! i) \<or> nextId v \<le> tid (scaledMesh f))"
    proof (cases i)
      case 0
      with f rs show ?thesis by simp
    next
      case (Suc j)
      with i have j: "j < length ps" by simp
      from IH j obtain g where g: "xs ! j = Tensors g"
        "faceInViewConfidence g = flag (ps ! j)"
        "topLeft (boundingBox g) = startPoint (box (ps ! j)) \<or>
           nextId v1 \<le> tid (topLeft (boundingBox g))"
        "bottomRight (boundingBox g) = endPoint (box (ps ! j)) \<or>
           nextId v1 \<le> tid (bottomRight (boundingBox g))"
        "mesh g = coords (ps ! j) \<or> nextId v1 \<le> tid (mesh g)"
        "scaledMesh g = scaledCoords (ps ! j) \<or> nextId v1 \<le> tid (scaledMesh g)"
        by blast
      with f(4) Suc rs show ?thesis by auto
    qed
  qed
qed

lemma handedOver_live:
  assumes wf: "wfWorld w3" and ho: "handedOver w3 ps" and i: "i < length ps"
    and t: "t' = t \<or> nextId w3 \<le> tid t'"
    and mem: "t \<in> {coords (ps ! i), scaledCoords (ps ! i), startPoint (box (ps ! i)),
                   endPoint (box (ps ! i))}"
  shows "tid t' \<notin> disposed w3 \<union> tid ` flag ` set ps"
proof -
  from ho have flags: "\<And>q. q \<in> set ps \<Longrightarrow> tid (flag q) < nextId w3"
    by (simp add: handedOver_def list_all_iff)
  from ho i mem have t3: "tid t \<notin> disposed w3" and tq: "\<And>q. q \<in> set ps \<Longrightarrow> tid t \<noteq> tid (flag q)"
    using nth_mem [OF i] by (auto simp: handedOver_def list_all_iff isDisposed_def)
  from t show ?thesis
  proof
    assume "t' = t"
    with t3 tq show ?thesis by auto
  next
    assume fresh: "nextId w3 \<le> tid t'"
    with fresh_ge [OF wf] have "tid t' \<notin> disposed w3" by simp
    moreover from fresh flags have "\<And>q. q \<in> set ps \<Longrightarrow> tid t' \<noteq> tid (flag q)"
      by fastforce
    ultimately show ?thesis by auto
  qed
qed


text \<open>The concrete runs: three faces on the 640 pixels wide image, no flip.\<close>

lemma example_image_prepared:
  "prepareImage exampleImage exampleWorld =
     (Inr (\<lparr>tid = 6, shape = [480, 640, 3], vals = replicate 921600 0\<rparr>,
           \<lparr>tid = 40, shape = [480, 640, 3], vals = replicate 921600 0\<rparr>,
           \<lparr>tid = 41, shape = [1, 480, 640, 3], vals = replicate 921600 0\<rparr>),
      exampleWorld\<lparr>nextId := 42\<rparr>)"
  by (simp add: prepareImage_def exampleImage_def exampleWorld_def andThen_def
      toFloat_def expandDims0_def makeTensor_def throwIfDisposed_def isDisposed_def ret_def)

lemma example_released:
  "dispose \<lparr>tid = 40, shape = [480, 640, 3], vals = replicate 921600 0\<rparr>
     (dispose \<lparr>tid = 6, shape = [480, 640, 3], vals = replicate 921600 0\<rparr>
        (exampleWorld\<lparr>nextId := 42\<rparr>)) = afterPredict"
  by (simp add: dispose_def exampleWorld_def afterPredict_def)

lemma example_width:
  "snd (getInputTensorDimensions
     (TensorInput \<lparr>tid = 6, shape = [480, 640, 3], vals = replicate 921600 0\<rparr>)) = Some 640"
  by (simp add: getInputTensorDimensions_def elementAt_def)

lemma threeFaces_returns:
  "threeFaces img w = (Inr (Some [examplePrediction, secondPrediction, thirdPrediction]), w)"
  by (simp add: threeFaces_def ret_def)

lemma three_callbacks_tensors:
  "promiseAll (map (callback exampleTable (load noOptions) (Some 640) True False afterPredict)
          [examplePrediction, secondPrediction, thirdPrediction]) afterPredict =
   (Inr [Tensors
        \<lparr>faceInViewConfidence = flag examplePrediction,
           boundingBox =
             \<lparr>topLeft = startPoint (box examplePrediction),
                bottomRight = endPoint (box examplePrediction)\<rparr>,
           mesh = coords examplePrediction,
           scaledMesh = scaledCoords examplePrediction,
           annotations = None\<rparr>,
       Tensors
        \<lparr>faceInViewConfidence = flag secondPrediction,
           boundingBox =
             \<lparr>topLeft = startPoint (box secondPrediction),
                bottomRight = endPoint (box secondPrediction)\<rparr>,
           mesh = coords secondPrediction,
           scaledMesh = scaledCoords secondPrediction,
           annotations = None\<rparr>,
       Tensors
        \<lparr>faceInViewConfidence = flag thirdPrediction,
           boundingBox =
             \<lparr>topLeft = startPoint (box thirdPrediction),
                bottomRight = endPoint (box thirdPrediction)\<rparr>,
           mesh = coords thirdPrediction,
           scaledMesh = scaledCoords thirdPrediction,
           annotations = None\<rparr>],
    \<lparr>disposed = {25, 15, 5, 40, 6, 0}, nextId = 42, regionsOfInterest = []\<rparr>)"
  by code_simp

lemma three_callbacks_arrays:
  "promiseAll (map (callback exampleTable (load noOptions) (Some 640) False False afterPredict)
          [examplePrediction, secondPrediction, thirdPrediction]) afterPredict =
   (Inr [Arrays
        \<lparr>faceInViewConfidence = 95 / 100,
           boundingBox = \<lparr>topLeft = (5, 5), bottomRight = (25, 25)\<rparr>,
           mesh = [[10, 10], [20, 20]], scaledMesh = [[100, 50], [20, 20]],
           annotations =
             Some [(''lipsUpperOuter'', [Some [20, 20], Some [100, 50]]),
                   (''noseTip'', [Some [20, 20]])]\<rparr>,
       Arrays
        \<lparr>faceInViewConfidence = 1 / 2,
           boundingBox = \<lparr>topLeft = (205, 5), bottomRight = (225, 25)\<rparr>,
           mesh = [[30, 10], [40, 20]], scaledMesh = [[300, 50], [400, 20]],
           annotations =
             Some [(''lipsUpperOuter'', [Some [400, 20], Some [300, 50]]),
                   (''noseTip'', [Some [400, 20]])]\<rparr>,
       Arrays
        \<lparr>faceInViewConfidence = 99 / 100,
           boundingBox = \<lparr>topLeft = (405, 5), bottomRight = (425, 25)\<rparr>,
           mesh = [[50, 10], [60, 20]], scaledMesh = [[500, 50], [600, 20]],
           annotations =
             Some [(''lipsUpperOuter'', [Some [600, 20], Some [500, 50]]),
                   (''noseTip'', [Some [600, 20]])]\<rparr>],
    \<lparr>disposed = {21, 22, 25, 11, 12, 15, 1, 2, 5, 40, 6, 0}, nextId = 42,
       regionsOfInterest = []\<rparr>)"
  by code_simp

lemma three_faces_run:
  assumes "promiseAll (map (callback exampleTable (load noOptions) (Some 640) rt False afterPredict)
          [examplePrediction, secondPrediction, thirdPrediction]) afterPredict = (Inr rs, w')"
  shows "estimateFaces threeFaces exampleTable (load noOptions) exampleImage rt False exampleWorld
         = (Inr (Some rs), w')"
  unfolding estimateFaces_after_predict [of exampleImage exampleWorld _ _ _ _ threeFaces _ _,
      OF example_image_prepared threeFaces_returns]
  by (simp add: example_released example_width andThen_def ret_def assms
      del: promiseAll.simps list.map)

lemma three_faces_tensors_run:
  "\<exists>rs w'. estimateFaces threeFaces exampleTable (load noOptions) exampleImage True False
              exampleWorld = (Inr (Some rs), w') \<and> length rs = 3"
  using three_faces_run [OF three_callbacks_tensors] by force

lemma three_faces_arrays_run:
  "\<exists>rs w'. estimateFaces threeFaces exampleTable (load noOptions) exampleImage False False
              exampleWorld = (Inr (Some rs), w') \<and> length rs = 3 \<and>
     (\<exists>f. rs ! 0 = Arrays f) \<and> (\<exists>f. rs ! 1 = Arrays f) \<and> (\<exists>f. rs ! 2 = Arrays f)"
  using three_faces_run [OF three_callbacks_arrays] by force


lemma three_handedOver:
  "wfWorld afterPredict \<and>
   handedOver afterPredict [examplePrediction, secondPrediction, thirdPrediction]"
  by (simp add: wfWorld_def handedOver_def afterPredict_def examplePrediction_def
      secondPrediction_def thirdPrediction_def isDisposed_def)


subsection \<open>Runs that return\<close>

text \<open>
  The properties of the results below are about calls that return a list. Such calls
  exist for every batch of well shaped predictions: with arrays always, with raw buffers
  always without flip, and with flip when the state is well-formed and the predictions
  were handed over intact. (The flip also needs the width of the image: an input tensor
  of rank two at least.)
\<close>

lemma holdsPoint_pointTensor: "holdsPoint t \<Longrightarrow> pointTensor t (vals t ! 0, vals t ! 1)"
  using two_list [of "vals t"] by (simp add: holdsPoint_def pointTensor_def)

lemma concat_blocks: "concat (map (block [k] v) [0 ..< n]) = take (n * k) v"
proof (induction n)
  case 0
  then show ?case by simp
next
  case (Suc n)
  have "take (n * k) v @ take k (drop (n * k) v) = take (n * k + k) v"
    by (simp add: take_add)
  with Suc show ?case
    by (simp add: block_def add.commute)
qed

lemma holdsMesh_meshTensor:
  assumes "holdsMesh t"
  shows "\<exists>rows. meshTensor t rows"
proof -
  from assms obtain n where shape: "shape t = [n, 2]" and len: "length (vals t) = n * 2"
    by (auto simp: holdsMesh_def split: list.splits)
  let ?rows = "map (block [2] (vals t)) [0 ..< n]"
  have "concat ?rows = vals t"
    using concat_blocks [of 2 "vals t" n] len by simp
  moreover have "list_all (\<lambda>r. length r = 2) ?rows"
    using len by (auto simp: list_all_iff block_def)
  ultimately have "meshTensor t ?rows"
    using shape by (simp add: meshTensor_def)
  then show ?thesis ..
qed

lemma scalar_array:
  assumes "holdsScalar t" "\<not> isDisposed w t"
  shows "\<exists>c. array w t = Inr (JNum c)"
  using assms by (simp add: array_def holdsScalar_def)

lemma promiseAll_returns:
  assumes "\<And>m v. m \<in> set ms \<Longrightarrow> \<exists>r u. m v = (Inr r, u)"
  shows "\<exists>rs u. promiseAll ms w = (Inr rs, u)"
  using assms
proof (induction ms arbitrary: w)
  case Nil
  then show ?case by simp
next
  case (Cons m ms)
  from Cons.prems [of m w] obtain r w1 where m: "m w = (Inr r, w1)" by auto
  from Cons.IH [of w1] Cons.prems obtain rs u where "promiseAll ms w1 = (Inr rs, u)"
    by auto
  with m show ?case by simp
qed

lemma callback_Arrays_returns:
  assumes p: "wellShaped w0 p" and wd: "fh \<longrightarrow> wd \<noteq> None"
  shows "\<exists>r u. callback T this wd False fh w0 p v = (Inr r, u)"
proof -
  from p holdsMesh_meshTensor [of "coords p"] holdsMesh_meshTensor [of "scaledCoords p"]
    holdsPoint_pointTensor [of "startPoint (box p)"] holdsPoint_pointTensor [of "endPoint (box p)"]
  obtain m sm tl' br where m: "meshTensor (coords p) m" "\<not> isDisposed w0 (coords p)"
    and sm: "meshTensor (scaledCoords p) sm" "\<not> isDisposed w0 (scaledCoords p)"
    and tl': "pointTensor (startPoint (box p)) tl'" "\<not> isDisposed w0 (startPoint (box p))"
    and br: "pointTensor (endPoint (box p)) br" "\<not> isDisposed w0 (endPoint (box p))"
    and fl: "holdsScalar (flag p)" "\<not> isDisposed w0 (flag p)"
    by (auto simp: wellShaped_def)
  from scalar_array [OF fl] obtain c where c: "array w0 (flag p) = Inr (JNum c)" by blast
  from meshTensor_array [OF m] obtain a where a: "array w0 (coords p) = Inr a" "asRows a = Some m"
    by blast
  from meshTensor_array [OF sm] obtain b
    where b: "array w0 (scaledCoords p) = Inr b" "asRows b = Some sm"
    by blast
  from pointTensor_array [OF tl'] obtain c'
    where c': "array w0 (startPoint (box p)) = Inr c'" "asPair c' = Some tl'"
    by blast
  from pointTensor_array [OF br] obtain d
    where d: "array w0 (endPoint (box p)) = Inr d" "asPair d = Some br"
    by blast
  have reads: "readTensors False w0 p = Inr [JNum c, a, b, c', d]"
    by (simp add: readTensors_def tensorsToRead_def c a b c' d)
  let ?A = "\<lparr>faceInViewConfidence = c, boundingBox = \<lparr>topLeft = tl', bottomRight = br\<rparr>,
             mesh = m, scaledMesh = sm, annotations = None\<rparr>"
  have rows: "list_all (\<lambda>c. 2 \<le> length c) (mesh ?A)" "list_all (\<lambda>c. 2 \<le> length c) (scaledMesh ?A)"
    using m(1) sm(1) by (simp_all add: meshTensor_def rows2_ge)
  have "\<exists>a' u. flipIf fh wd (Arrays ?A) u0 = (Inr (Arrays a'), u)" for u0
  proof (cases fh)
    case False
    then show ?thesis by (simp add: flipIf_def ret_def)
  next
    case True
    with wd obtain W where "wd = Some W" by auto
    with True flipFaceHorizontal_Arrays [OF rows] show ?thesis
      by (simp add: flipIf_def)
  qed
  then obtain a' u where
    "flipIf fh wd (Arrays ?A)
       (dispose (coords p) (dispose (scaledCoords p)
          (clearPipelineROIs this c (dispose (flag p) v)))) = (Inr (Arrays a'), u)"
    by blast
  then show ?thesis
    by (simp add: callback_def reads assemble_def a b c' d andThen_def disposeFlag_def
        disposeCoords_def ret_def)
qed

lemma estimateFaces_arrays_returns:
  assumes prep: "prepareImage inp w = (Inr (input', inputToFloat, img), w1)"
    and pred: "predict img w1 = (Inr (Some ps), w2)"
    and ps: "ps \<noteq> []"
    and shaped: "list_all (wellShaped (dispose inputToFloat (dispose input' w2))) ps"
    and wd: "fh \<longrightarrow> 2 \<le> length (shape input')"
  shows "\<exists>rs w'. estimateFaces predict T this inp False fh w = (Inr (Some rs), w')"
proof -
  let ?w3 = "dispose inputToFloat (dispose input' w2)"
  let ?wd = "snd (getInputTensorDimensions (TensorInput input'))"
  from wd have wd': "fh \<longrightarrow> ?wd \<noteq> None"
    by (auto simp: getInputTensorDimensions_def elementAt_def)
  from ps obtain p ps' where pps: "ps = p # ps'" by (cases ps) auto
  have "\<exists>rs u. promiseAll (map (callback T this ?wd False fh ?w3) ps) ?w3 = (Inr rs, u)"
  proof (rule promiseAll_returns)
    fix m v assume "m \<in> set (map (callback T this ?wd False fh ?w3) ps)"
    then obtain q where q: "q \<in> set ps" "m = callback T this ?wd False fh ?w3 q" by auto
    from shaped q(1) have "wellShaped ?w3 q" by (simp add: list_all_iff)
    from callback_Arrays_returns [OF this wd'] q(2)
    show "\<exists>r u. m v = (Inr r, u)" by simp
  qed
  then obtain rs u where "promiseAll (map (callback T this ?wd False fh ?w3) ps) ?w3 = (Inr rs, u)"
    by blast
  then show ?thesis
    unfolding estimateFaces_after_predict
      [of inp w input' inputToFloat img w1 predict "Some ps" w2, OF prep pred]
    by (simp add: pps andThen_def ret_def del: promiseAll.simps list.map)
qed

lemma wfWorld_disposeFlag:
  assumes "wfWorld v" "tid t < nextId v"
  shows "wfWorld (clearPipelineROIs this c (dispose t v))"
  using assms by (auto simp: wfWorld_def dispose_def)

lemma callback_Tensors_returns:
  assumes fl: "holdsScalar (flag p)" "\<not> isDisposed w0 (flag p)"
    and flip: "fh \<longrightarrow> wd \<noteq> None \<and> wfWorld v \<and> tid (flag p) < nextId v \<and>
      list_all (\<lambda>t. \<not> isDisposed v t \<and> tid t \<noteq> tid (flag p))
        [coords p, scaledCoords p, startPoint (box p), endPoint (box p)] \<and>
      holdsMesh (coords p) \<and> holdsMesh (scaledCoords p) \<and>
      holdsPoint (startPoint (box p)) \<and> holdsPoint (endPoint (box p))"
  shows "\<exists>r u. callback T this wd True fh w0 p v = (Inr r, u)"
proof -
  from scalar_array [OF fl] obtain c where c: "array w0 (flag p) = Inr (JNum c)" by blast
  have reads: "readTensors True w0 p = Inr [JNum c]"
    by (simp add: readTensors_def tensorsToRead_def c)
  let ?F = "\<lparr>faceInViewConfidence = flag p,
             boundingBox = \<lparr>topLeft = startPoint (box p), bottomRight = endPoint (box p)\<rparr>,
             mesh = coords p, scaledMesh = scaledCoords p, annotations = None\<rparr>"
  let ?v' = "clearPipelineROIs this c (dispose (flag p) v)"
  have "\<exists>r u. flipIf fh wd (Tensors ?F) ?v' = (Inr r, u)"
  proof (cases fh)
    case False
    then show ?thesis by (simp add: flipIf_def ret_def)
  next
    case True
    with flip obtain W where W: "wd = Some W" and wf: "wfWorld v" and al: "tid (flag p) < nextId v"
      and live: "list_all (\<lambda>t. \<not> isDisposed v t \<and> tid t \<noteq> tid (flag p))
        [coords p, scaledCoords p, startPoint (box p), endPoint (box p)]"
      and shapes: "holdsMesh (coords p)" "holdsMesh (scaledCoords p)"
        "holdsPoint (startPoint (box p))" "holdsPoint (endPoint (box p))"
      by auto
    from holdsMesh_meshTensor [OF shapes(1)] holdsMesh_meshTensor [OF shapes(2)]
      holdsPoint_pointTensor [OF shapes(3)] holdsPoint_pointTensor [OF shapes(4)]
    obtain m sm tl' br where "meshTensor (coords p) m" "meshTensor (scaledCoords p) sm"
      "pointTensor (startPoint (box p)) tl'" "pointTensor (endPoint (box p)) br"
      by blast
    with fl(1) live
    have h: "holds ?v' ?F \<lparr>faceInViewConfidence = hd (vals (flag p)),
               boundingBox = \<lparr>topLeft = tl', bottomRight = br\<rparr>,
               mesh = m, scaledMesh = sm, annotations = None\<rparr>"
      by (cases "vals (flag p)")
        (auto simp: holds_def isDisposed_def dispose_def holdsScalar_def)
    from flipFaceHorizontal_Tensors [OF wfWorld_disposeFlag [OF wf al] h] True W
    show ?thesis by (simp add: flipIf_def)
  qed
  then show ?thesis
    by (simp add: callback_def reads assemble_def andThen_def disposeFlag_def)
qed

lemma promiseAll_Tensors_returns:
  assumes shaped: "list_all (wellShaped w0) ps"
    and flip: "fh \<longrightarrow> wd \<noteq> None \<and> wfWorld v \<and> handedOver w0 ps \<and>
       nextId w0 \<le> nextId v \<and> disposed v \<subseteq> disposed w0 \<union> tid ` flag ` set qs \<and>
       set ps \<subseteq> set qs \<and> handedOver w0 qs"
  shows "\<exists>rs u. promiseAll (map (callback T this wd True fh w0) ps) v = (Inr rs, u)"
  using assms
proof (induction ps arbitrary: v)
  case Nil
  then show ?case by simp
next
  case (Cons p ps)
  from Cons.prems(1) have p: "wellShaped w0 p" and rest: "list_all (wellShaped w0) ps"
    by simp_all
  have "\<exists>r u. callback T this wd True fh w0 p v = (Inr r, u)"
  proof (rule callback_Tensors_returns)
    from p show "holdsScalar (flag p)" "\<not> isDisposed w0 (flag p)"
      by (simp_all add: wellShaped_def)
  next
    show "fh \<longrightarrow> wd \<noteq> None \<and> wfWorld v \<and> tid (flag p) < nextId v \<and>
      list_all (\<lambda>t. \<not> isDisposed v t \<and> tid t \<noteq> tid (flag p))
        [coords p, scaledCoords p, startPoint (box p), endPoint (box p)] \<and>
      holdsMesh (coords p) \<and> holdsMesh (scaledCoords p) \<and>
      holdsPoint (startPoint (box p)) \<and> holdsPoint (endPoint (box p))"
    proof
      assume fh
      with Cons.prems(2) have wd: "wd \<noteq> None" and wf: "wfWorld v"
        and ho: "handedOver w0 qs" and le: "nextId w0 \<le> nextId v"
        and d: "disposed v \<subseteq> disposed w0 \<union> tid ` flag ` set qs" and pq: "p \<in> set qs"
        by auto
      from ho pq have al: "tid (flag p) < nextId w0"
        and live: "\<And>t. t \<in> {coords p, scaledCoords p, startPoint (box p), endPoint (box p)} \<Longrightarrow>
          \<not> isDisposed w0 t \<and> (\<forall>q \<in> set qs. tid t \<noteq> tid (flag q))"
        by (auto simp: handedOver_def list_all_iff)
      have "\<not> isDisposed v t \<and> tid t \<noteq> tid (flag p)"
        if "t \<in> {coords p, scaledCoords p, startPoint (box p), endPoint (box p)}" for t
        using live [OF that] d pq by (auto simp: isDisposed_def)
      then have "list_all (\<lambda>t. \<not> isDisposed v t \<and> tid t \<noteq> tid (flag p))
        [coords p, scaledCoords p, startPoint (box p), endPoint (box p)]"
        by simp
      with wd wf al le p show "wd \<noteq> None \<and> wfWorld v \<and> tid (flag p) < nextId v \<and>
        list_all (\<lambda>t. \<not> isDisposed v t \<and> tid t \<noteq> tid (flag p))
          [coords p, scaledCoords p, startPoint (box p), endPoint (box p)] \<and>
        holdsMesh (coords p) \<and> holdsMesh (scaledCoords p) \<and>
        holdsPoint (startPoint (box p)) \<and> holdsPoint (endPoint (box p))"
        by (simp add: wellShaped_def)
    qed
  qed
  then obtain r u where c: "callback T this wd True fh w0 p v = (Inr r, u)" by blast
  from callback_Tensors [OF c] have du: "disposed u = insert (tid (flag p)) (disposed v)"
    and nu: "nextId v \<le> nextId u"
    by auto
  have "fh \<longrightarrow> wd \<noteq> None \<and> wfWorld u \<and> handedOver w0 ps \<and>
       nextId w0 \<le> nextId u \<and> disposed u \<subseteq> disposed w0 \<union> tid ` flag ` set qs \<and>
       set ps \<subseteq> set qs \<and> handedOver w0 qs"
  proof
    assume fh
    with Cons.prems(2) have wd: "wd \<noteq> None" and wf: "wfWorld v"
      and ho: "handedOver w0 (p # ps)" and hq: "handedOver w0 qs" and le: "nextId w0 \<le> nextId v"
      and d: "disposed v \<subseteq> disposed w0 \<union> tid ` flag ` set qs" and sub: "set (p # ps) \<subseteq> set qs"
      by auto
    from hq sub have "tid (flag p) < nextId w0"
      by (auto simp: handedOver_def list_all_iff)
    with wf le nu du have "wfWorld u"
      by (auto simp: wfWorld_def)
    moreover from ho have "handedOver w0 ps"
      by (auto simp: handedOver_def list_all_iff)
    moreover from du d sub have "disposed u \<subseteq> disposed w0 \<union> tid ` flag ` set qs"
      by auto
    ultimately show "wd \<noteq> None \<and> wfWorld u \<and> handedOver w0 ps \<and>
       nextId w0 \<le> nextId u \<and> disposed u \<subseteq> disposed w0 \<union> tid ` flag ` set qs \<and>
       set ps \<subseteq> set qs \<and> handedOver w0 qs"
      using wd le nu sub hq by auto
  qed
  from Cons.IH [OF rest this] obtain rs u' where
    "promiseAll (map (callback T this wd True fh w0) ps) u = (Inr rs, u')"
    by blast
  with c show ?case by simp
qed

lemma estimateFaces_tensors_returns:
  assumes prep: "prepareImage inp w = (Inr (input', inputToFloat, img), w1)"
    and pred: "predict img w1 = (Inr (Some ps), w2)"
    and ps: "ps \<noteq> []"
    and shaped: "list_all (wellShaped (dispose inputToFloat (dispose input' w2))) ps"
    and flip: "fh \<longrightarrow> 2 \<le> length (shape input') \<and>
       wfWorld (dispose inputToFloat (dispose input' w2)) \<and>
       handedOver (dispose inputToFloat (dispose input' w2)) ps"
  shows "\<exists>rs w'. estimateFaces predict T this inp True fh w = (Inr (Some rs), w')"
proof -
  let ?w3 = "dispose inputToFloat (dispose input' w2)"
  let ?wd = "snd (getInputTensorDimensions (TensorInput input'))"
  from flip have flip': "fh \<longrightarrow> ?wd \<noteq> None \<and> wfWorld ?w3 \<and> handedOver ?w3 ps \<and>
       nextId ?w3 \<le> nextId ?w3 \<and> disposed ?w3 \<subseteq> disposed ?w3 \<union> tid ` flag ` set ps \<and>
       set ps \<subseteq> set ps \<and> handedOver ?w3 ps"
    by (auto simp: getInputTensorDimensions_def elementAt_def)
  from ps obtain p ps' where pps: "ps = p # ps'" by (cases ps) auto
  from promiseAll_Tensors_returns [OF shaped flip']
  obtain rs u where "promiseAll (map (callback T this ?wd True fh ?w3) ps) ?w3 = (Inr rs, u)"
    by blast
  then show ?thesis
    unfolding estimateFaces_after_predict
      [of inp w input' inputToFloat img w1 predict "Some ps" w2, OF prep pred]
    by (simp add: pps andThen_def ret_def del: promiseAll.simps list.map)
qed


subsection \<open>Raw buffers\<close>

text \<open>
  Claim C6. When raw buffers are requested (\<open>returnTensors\<close>), every element of the
  list \<open>estimateFaces\<close> returns is a buffer-typed result without the field
  \<open>annotations\<close>, with and without flip.
\<close>

theorem estimateFaces_raw_no_annotations:
  "estimateFaces predict T this inp True fh w = (Inr (Some rs), w') \<Longrightarrow>
   \<forall>r \<in> set rs. \<exists>f. r = Tensors f \<and> annotations f = None"
proof
  fix r
  assume run: "estimateFaces predict T this inp True fh w = (Inr (Some rs), w')"
    and r: "r \<in> set rs"
  from estimateFaces_Some [OF run] obtain wd w3 ps
    where all: "promiseAll (map (callback T this wd True fh w3) ps) w3 = (Inr rs, w')"
    by blast
  from r obtain i where i: "i < length rs" "rs ! i = r"
    by (auto simp: in_set_conv_nth)
  from promiseAll_Inr [OF all] i obtain v u
    where "callback T this wd True fh w3 (ps ! i) v = (Inr r, u)"
    by auto
  from callback_Tensors [OF this] show "\<exists>f. r = Tensors f \<and> annotations f = None"
    by blast
qed

theorem estimateFaces_raw_no_annotations_witness:
  "\<exists>rs w'. estimateFaces threeFaces exampleTable (load noOptions) exampleImage True False
              exampleWorld = (Inr (Some rs), w') \<and>
     length rs = 3 \<and>
     (\<exists>f. rs ! 0 = Tensors f \<and> annotations f = None) \<and>
     (\<exists>f. rs ! 1 = Tensors f \<and> annotations f = None) \<and>
     (\<exists>f. rs ! 2 = Tensors f \<and> annotations f = None)"
proof -
  from three_faces_tensors_run
  obtain rs w' where run: "estimateFaces threeFaces exampleTable (load noOptions) exampleImage
      True False exampleWorld = (Inr (Some rs), w')" and len: "length rs = 3"
    by blast
  from len have "rs ! 0 \<in> set rs" "rs ! 1 \<in> set rs" "rs ! 2 \<in> set rs"
    by simp_all
  with estimateFaces_raw_no_annotations [OF run] run len show ?thesis
    by blast
qed


text \<open>
  Claim C10. When raw buffers are requested and \<open>estimateFaces\<close> returns a list, the
  field \<open>faceInViewConfidence\<close> of the result at each position is the confidence buffer
  of the prediction at that position, and this buffer has been released in the state
  \<open>estimateFaces\<close> ends in (line 175 comes before line 180); the buffers in \<open>mesh\<close>,
  \<open>scaledMesh\<close> and the two corners are live, when the state after the release of
  the input is well-formed and the predictions were handed over intact (\<open>handedOver\<close>).
\<close>

theorem estimateFaces_raw_confidence_released:
  assumes prep: "prepareImage inp w = (Inr (input', inputToFloat, img), w1)"
    and pred: "predict img w1 = (Inr (Some ps), w2)"
    and ps: "ps \<noteq> []"
    and run: "estimateFaces predict T this inp True fh w = (Inr out, w')"
  shows "\<exists>rs. out = Some rs \<and> length rs = length ps \<and>
     (\<forall>i < length ps. \<exists>f. rs ! i = Tensors f \<and>
        faceInViewConfidence f = flag (ps ! i) \<and>
        isDisposed w' (faceInViewConfidence f) \<and>
        (wfWorld (dispose inputToFloat (dispose input' w2)) \<and>
         handedOver (dispose inputToFloat (dispose input' w2)) ps \<longrightarrow>
           \<not> isDisposed w' (mesh f) \<and>
           \<not> isDisposed w' (scaledMesh f) \<and>
           \<not> isDisposed w' (topLeft (boundingBox f)) \<and>
           \<not> isDisposed w' (bottomRight (boundingBox f))))"
proof -
  let ?w3 = "dispose inputToFloat (dispose input' w2)"
  let ?wd = "snd (getInputTensorDimensions (TensorInput input'))"
  from ps obtain p ps' where pps: "ps = p # ps'" by (cases ps) auto
  from run have "andThen (\<lambda>w. promiseAll (map (callback T this ?wd True fh w) ps) w)
      (\<lambda>results. ret (Some results)) ?w3 = (Inr out, w')"
    unfolding estimateFaces_after_predict
      [of inp w input' inputToFloat img w1 predict "Some ps" w2, OF prep pred]
    by (simp add: pps del: promiseAll.simps list.map)
  then obtain rs where all: "promiseAll (map (callback T this ?wd True fh ?w3) ps) ?w3 = (Inr rs, w')"
    and out: "out = Some rs"
    by (auto simp: ret_def elim!: andThen_InrE)
  note P = promiseAll_Tensors [OF all]
  from P have d: "disposed w' = disposed ?w3 \<union> tid ` flag ` set ps" by simp
  have "\<exists>f. rs ! i = Tensors f \<and>
        faceInViewConfidence f = flag (ps ! i) \<and>
        isDisposed w' (faceInViewConfidence f) \<and>
        (wfWorld ?w3 \<and> handedOver ?w3 ps \<longrightarrow>
           \<not> isDisposed w' (mesh f) \<and>
           \<not> isDisposed w' (scaledMesh f) \<and>
           \<not> isDisposed w' (topLeft (boundingBox f)) \<and>
           \<not> isDisposed w' (bottomRight (boundingBox f)))" if i: "i < length ps" for i
  proof -
    from P i obtain f where f: "rs ! i = Tensors f"
        "faceInViewConfidence f = flag (ps ! i)"
        "topLeft (boundingBox f) = startPoint (box (ps ! i)) \<or>
           nextId ?w3 \<le> tid (topLeft (boundingBox f))"
        "bottomRight (boundingBox f) = endPoint (box (ps ! i)) \<or>
           nextId ?w3 \<le> tid (bottomRight (boundingBox f))"
        "mesh f = coords (ps ! i) \<or> nextId ?w3 \<le> tid (mesh f)"
        "scaledMesh f = scaledCoords (ps ! i) \<or> nextId ?w3 \<le> tid (scaledMesh f)"
      by blast
    have "flag (ps ! i) \<in> flag ` set ps" using i by simp
    then have released: "isDisposed w' (faceInViewConfidence f)"
      by (simp add: isDisposed_def d f(2))
    have live: "\<not> isDisposed w' (mesh f) \<and>
           \<not> isDisposed w' (scaledMesh f) \<and>
           \<not> isDisposed w' (topLeft (boundingBox f)) \<and>
           \<not> isDisposed w' (bottomRight (boundingBox f))"
      if wf: "wfWorld ?w3" and ho: "handedOver ?w3 ps"
      using handedOver_live [OF wf ho i f(5)] handedOver_live [OF wf ho i f(6)]
        handedOver_live [OF wf ho i f(3)] handedOver_live [OF wf ho i f(4)]
      by (simp add: isDisposed_def d)
    from released live f(1,2) show ?thesis by blast
  qed
  with out P show ?thesis by blast
qed

theorem estimateFaces_raw_confidence_released_witness:
  "\<exists>rs w'. estimateFaces threeFaces exampleTable (load noOptions) exampleImage True False
              exampleWorld = (Inr (Some rs), w') \<and>
     length rs = 3 \<and>
     wfWorld afterPredict \<and>
     handedOver afterPredict [examplePrediction, secondPrediction, thirdPrediction] \<and>
     (\<exists>f. rs ! 1 = Tensors f \<and>
        faceInViewConfidence f = flag secondPrediction \<and>
        isDisposed w' (faceInViewConfidence f) \<and>
        \<not> isDisposed w' (mesh f) \<and>
        \<not> isDisposed w' (scaledMesh f) \<and>
        \<not> isDisposed w' (topLeft (boundingBox f)) \<and>
        \<not> isDisposed w' (bottomRight (boundingBox f)))"
proof -
  let ?ps = "[examplePrediction, secondPrediction, thirdPrediction]"
  from three_faces_tensors_run
  obtain out w' where run: "estimateFaces threeFaces exampleTable (load noOptions) exampleImage
      True False exampleWorld = (Inr out, w')"
    by blast
  from estimateFaces_raw_confidence_released
    [OF example_image_prepared threeFaces_returns _ run]
  obtain rs where "out = Some rs" "length rs = length ?ps"
    "\<forall>i < length ?ps. \<exists>f. rs ! i = Tensors f \<and>
        faceInViewConfidence f = flag (?ps ! i) \<and>
        isDisposed w' (faceInViewConfidence f) \<and>
        (wfWorld afterPredict \<and> handedOver afterPredict ?ps \<longrightarrow>
           \<not> isDisposed w' (mesh f) \<and>
           \<not> isDisposed w' (scaledMesh f) \<and>
           \<not> isDisposed w' (topLeft (boundingBox f)) \<and>
           \<not> isDisposed w' (bottomRight (boundingBox f)))"
    by (simp only: example_released) blast
  with run three_handedOver show ?thesis
    by (auto dest: spec [where x = 1])
qed

subsection \<open>Annotations\<close>










subsection \<open>Order\<close>

text \<open>
  Claim C8. When the pipeline returns \<open>k\<close> predictions and \<open>estimateFaces\<close> returns:
  for \<open>k = 0\<close> the result is \<^verbatim>\<open>null\<close>; otherwise it is a list of \<open>k\<close> results, and the
  result at position \<open>i\<close> is what the callback returns for the prediction at position
  \<open>i\<close>: its confidence is the confidence buffer of that prediction (raw buffers) or the
  number read from it (arrays).
\<close>

theorem estimateFaces_keeps_order:
  assumes prep: "prepareImage inp w = (Inr (input', inputToFloat, img), w1)"
    and pred: "predict img w1 = (Inr predictions, w2)"
    and run: "estimateFaces predict T this inp rt fh w = (Inr out, w')"
  shows "(predictions = None \<or> predictions = Some [] \<longrightarrow> out = None) \<and>
     (\<forall>ps. predictions = Some ps \<and> ps \<noteq> [] \<longrightarrow>
        (\<exists>rs. out = Some rs \<and> length rs = length ps \<and>
           (\<forall>i < length ps.
              (\<exists>v u. callback T this (snd (getInputTensorDimensions (TensorInput input'))) rt fh
                        (dispose inputToFloat (dispose input' w2)) (ps ! i) v
                      = (Inr (rs ! i), u)) \<and>
              (case rs ! i of
                 Tensors f \<Rightarrow> faceInViewConfidence f = flag (ps ! i)
               | Arrays f \<Rightarrow>
                   array (dispose inputToFloat (dispose input' w2)) (flag (ps ! i))
                   = Inr (JNum (faceInViewConfidence f))))))"
proof (intro conjI allI impI)
  assume "predictions = None \<or> predictions = Some []"
  with run show "out = None"
    unfolding estimateFaces_after_predict
      [of inp w input' inputToFloat img w1 predict predictions w2, OF prep pred]
    by (auto simp: ret_def)
next
  fix ps
  assume "predictions = Some ps \<and> ps \<noteq> []"
  then have some: "predictions = Some ps" and ps: "ps \<noteq> []" by simp_all
  let ?w3 = "dispose inputToFloat (dispose input' w2)"
  let ?wd = "snd (getInputTensorDimensions (TensorInput input'))"
  from ps obtain p ps' where pps: "ps = p # ps'" by (cases ps) auto
  from run have "andThen (\<lambda>w. promiseAll (map (callback T this ?wd rt fh w) ps) w)
      (\<lambda>results. ret (Some results)) ?w3 = (Inr out, w')"
    unfolding estimateFaces_after_predict
      [of inp w input' inputToFloat img w1 predict predictions w2, OF prep pred]
    by (simp add: some pps del: promiseAll.simps list.map)
  then obtain rs where all: "promiseAll (map (callback T this ?wd rt fh ?w3) ps) ?w3 = (Inr rs, w')"
    and out: "out = Some rs"
    by (auto simp: ret_def elim!: andThen_InrE)
  from promiseAll_Inr [OF all] have len: "length rs = length ps"
    and nth: "\<And>i. i < length ps \<Longrightarrow> \<exists>v u. callback T this ?wd rt fh ?w3 (ps ! i) v = (Inr (rs ! i), u)"
    by simp_all
  have "(\<exists>v u. callback T this ?wd rt fh ?w3 (ps ! i) v = (Inr (rs ! i), u)) \<and>
        (case rs ! i of
           Tensors f \<Rightarrow> faceInViewConfidence f = flag (ps ! i)
         | Arrays f \<Rightarrow> array ?w3 (flag (ps ! i)) = Inr (JNum (faceInViewConfidence f)))"
    if i: "i < length ps" for i
  proof -
    from nth [OF i] obtain v u
      where c: "callback T this ?wd rt fh ?w3 (ps ! i) v = (Inr (rs ! i), u)"
      by blast
    have "case rs ! i of
           Tensors f \<Rightarrow> faceInViewConfidence f = flag (ps ! i)
         | Arrays f \<Rightarrow> array ?w3 (flag (ps ! i)) = Inr (JNum (faceInViewConfidence f))"
    proof (cases rt)
      case True
      with c have "callback T this ?wd True fh ?w3 (ps ! i) v = (Inr (rs ! i), u)" by simp
      from callback_Tensors [OF this] show ?thesis by auto
    next
      case False
      with c have "callback T this ?wd False fh ?w3 (ps ! i) v = (Inr (rs ! i), u)" by simp
      from callback_Arrays [OF this] show ?thesis by auto
    qed
    with c show ?thesis by blast
  qed
  with out len show "\<exists>rs. out = Some rs \<and> length rs = length ps \<and>
           (\<forall>i < length ps.
              (\<exists>v u. callback T this ?wd rt fh ?w3 (ps ! i) v = (Inr (rs ! i), u)) \<and>
              (case rs ! i of
                 Tensors f \<Rightarrow> faceInViewConfidence f = flag (ps ! i)
               | Arrays f \<Rightarrow> array ?w3 (flag (ps ! i)) = Inr (JNum (faceInViewConfidence f))))"
    by blast
qed

theorem estimateFaces_keeps_order_witness:
  "\<exists>rs w'. estimateFaces threeFaces exampleTable (load noOptions) exampleImage False False
              exampleWorld = (Inr (Some rs), w') \<and>
     length rs = 3 \<and>
     (\<exists>f. rs ! 0 = Arrays f \<and>
        array afterPredict (flag examplePrediction) = Inr (JNum (faceInViewConfidence f))) \<and>
     (\<exists>f. rs ! 1 = Arrays f \<and>
        array afterPredict (flag secondPrediction) = Inr (JNum (faceInViewConfidence f))) \<and>
     (\<exists>f. rs ! 2 = Arrays f \<and>
        array afterPredict (flag thirdPrediction) = Inr (JNum (faceInViewConfidence f)))"
proof -
  let ?ps = "[examplePrediction, secondPrediction, thirdPrediction]"
  from three_faces_arrays_run
  obtain rs0 w' where run: "estimateFaces threeFaces exampleTable (load noOptions) exampleImage
      False False exampleWorld = (Inr (Some rs0), w')"
    and arrays: "\<exists>f. rs0 ! 0 = Arrays f" "\<exists>f. rs0 ! 1 = Arrays f" "\<exists>f. rs0 ! 2 = Arrays f"
    by blast
  from estimateFaces_keeps_order [OF example_image_prepared threeFaces_returns run]
  have "\<exists>rs. Some rs0 = Some rs \<and> length rs = length ?ps \<and>
           (\<forall>i < length ?ps.
              (case rs ! i of
                 Tensors f \<Rightarrow> faceInViewConfidence f = flag (?ps ! i)
               | Arrays f \<Rightarrow> array afterPredict (flag (?ps ! i))
                   = Inr (JNum (faceInViewConfidence f))))"
    by (simp only: example_released) blast
  then have len: "length rs0 = 3"
    and nth: "\<And>i. i < 3 \<Longrightarrow> (case rs0 ! i of
                 Tensors f \<Rightarrow> faceInViewConfidence f = flag (?ps ! i)
               | Arrays f \<Rightarrow> array afterPredict (flag (?ps ! i))
                   = Inr (JNum (faceInViewConfidence f)))"
    by auto
  from nth [of 0] nth [of 1] nth [of 2] arrays
  have "(\<exists>f. rs0 ! 0 = Arrays f \<and>
        array afterPredict (flag examplePrediction) = Inr (JNum (faceInViewConfidence f))) \<and>
     (\<exists>f. rs0 ! 1 = Arrays f \<and>
        array afterPredict (flag secondPrediction) = Inr (JNum (faceInViewConfidence f))) \<and>
     (\<exists>f. rs0 ! 2 = Arrays f \<and>
        array afterPredict (flag thirdPrediction) = Inr (JNum (faceInViewConfidence f)))"
    by auto
  with run len show ?thesis by blast
qed


end
